theory Spec2Isabelle
  imports Main "HOL-Library.AList"
begin

section \<open>Python values, exceptions and dictionaries\<close>

text \<open>
  Every exception the modelled methods can raise is a value; a method that may raise
  returns \<open>error + 'a\<close>, with \<open>Inl\<close> for the exception.
\<close>

datatype error =
    RuntimeError string
  | TypeError string
  | UnboundLocalError string
  | AssertionError string
  | KeyError string
  | AttributeError string
  | IndexError
  | NotImplementedError

text \<open>
  A Python \<open>dict\<close> keeps insertion order and has one entry per key: it is an association
  list. Assigning to a key that is present replaces the value in place, assigning to a
  new key appends (\<open>AList.update\<close> does exactly this).
\<close>

type_synonym ('k, 'v) dict = "('k \<times> 'v) list"

definition setitem :: "('k, 'v) dict \<Rightarrow> 'k \<Rightarrow> 'v \<Rightarrow> ('k, 'v) dict" where
  "setitem d k v = AList.update k v d"

text \<open>\<open>d.update(e)\<close>: the entries of \<open>e\<close> are assigned in their order.\<close>

fun dict_update :: "('k, 'v) dict \<Rightarrow> ('k, 'v) dict \<Rightarrow> ('k, 'v) dict" where
  "dict_update d [] = d"
| "dict_update d ((k, v) # e) = dict_update (setitem d k v) e"

text \<open>\<open>d[k]\<close> raises KeyError on a missing key.\<close>

definition getitem :: "(string, 'v) dict \<Rightarrow> string \<Rightarrow> error + 'v" where
  "getitem d k = (case map_of d k of None \<Rightarrow> Inl (KeyError k) | Some v \<Rightarrow> Inr v)"

text \<open>\<open>xs[0]\<close> raises IndexError on an empty list.\<close>

definition first_item :: "'a list \<Rightarrow> error + 'a" where
  "first_item xs = (case xs of [] \<Rightarrow> Inl IndexError | x # _ \<Rightarrow> Inr x)"

text \<open>
  An attribute of an object that \<open>__init__\<close> may never have assigned: it is absent,
  holds \<open>None\<close>, or holds a value.
\<close>

datatype 'a attr = Unset | PyNone | Val 'a

text \<open>
  The values that occur in configs: \<open>None\<close>, booleans, integers, strings, lists (and
  tuples) and dicts with string keys.
\<close>

datatype cfg_value =
    Cfg_none
  | Cfg_bool bool
  | Cfg_int int
  | Cfg_str string
  | Cfg_list "cfg_value list"
  | Cfg_dict "(string \<times> cfg_value) list"

text \<open>\<open>p in s\<close> on strings: \<open>p\<close> occurs in \<open>s\<close> as a contiguous part.\<close>

fun contains :: "string \<Rightarrow> string \<Rightarrow> bool" where
  "contains p [] = (p = [])"
| "contains p (c # s) = (take (length p) (c # s) = p \<or> contains p s)"

text \<open>
  \<open>'text' in v\<close> for a string literal and a config value: a substring test on a
  string, membership in a list, a key test on a dict, and a TypeError, with Python's
  message, on a value that is not iterable.
\<close>

fun py_in :: "string \<Rightarrow> cfg_value \<Rightarrow> error + bool" where
  "py_in x (Cfg_str s) = Inr (contains x s)"
| "py_in x (Cfg_list vs) = Inr (Cfg_str x \<in> set vs)"
| "py_in x (Cfg_dict d) = Inr (x \<in> fst ` set d)"
| "py_in x Cfg_none = Inl (TypeError ''argument of type 'NoneType' is not iterable'')"
| "py_in x (Cfg_bool b) = Inl (TypeError ''argument of type 'bool' is not iterable'')"
| "py_in x (Cfg_int i) = Inl (TypeError ''argument of type 'int' is not iterable'')"

text \<open>\<open>d.pop(k, default)\<close>: the value and the dict without the key.\<close>

definition dict_pop :: "('k, 'v) dict \<Rightarrow> 'k \<Rightarrow> 'v \<Rightarrow> 'v \<times> ('k, 'v) dict" where
  "dict_pop d k dflt =
     (case map_of d k of None \<Rightarrow> (dflt, d) | Some v \<Rightarrow> (v, AList.delete k d))"

text \<open>\<open>str(n)\<close> of a non-negative integer: its decimal digits.\<close>

definition digit_char :: "nat \<Rightarrow> char" where
  "digit_char d = char_of (48 + d)"

function str_nat :: "nat \<Rightarrow> string" where
  "str_nat n = (if n < 10 then [digit_char n] else str_nat (n div 10) @ [digit_char (n mod 10)])"
  by pat_completeness auto
termination
  by (relation "measure id") auto

declare str_nat.simps [simp del]

section \<open>Mutables and the object store\<close>

text \<open>
  Modelled from the spec: the mutable classes (\<open>BaseMutable\<close>, the mutable values and
  \<open>OneShotMutableChannelUnit\<close>) are not among the sources. A mutable is modelled by the
  attributes the mutators read and write; \<open>current_choice\<close> is a plain attribute, so
  reading it returns the value assigned last, and \<open>max_choice\<close>, \<open>min_choice\<close>,
  \<open>alias\<close>, \<open>name\<close> and \<open>is_mutable\<close> do not depend on it.

  Mutables are objects with identity: search groups, unit lists and the module list of
  the architecture hold references, and the store maps a reference to the object's
  current attributes, so that a mutable that sits in two groups is one object.
\<close>

record 'c mutable =
  name :: string
  "alias" :: "string option"
  is_mutable :: bool
  is_fixed :: bool
  current_choice :: 'c
  max_choice :: 'c
  min_choice :: 'c

type_synonym ref = nat

type_synonym 'c store = "ref \<Rightarrow> 'c mutable"

type_synonym groups = "(string, ref list) dict"

text \<open>\<open>for mutable in mutables: mutable.current_choice = choice\<close>\<close>

fun assign_choice :: "ref list \<Rightarrow> 'c \<Rightarrow> 'c store \<Rightarrow> 'c store" where
  "assign_choice [] c h = h"
| "assign_choice (m # ms) c h = assign_choice ms c (h(m := (h m)\<lparr>current_choice := c\<rparr>))"

section \<open>NasMutator\<close>

text \<open>
  The state of a \<open>NasMutator\<close>: its attributes, the store of the mutables it reaches, and
  the state of the random number generator that \<open>sample_choice\<close> draws from.
  \<open>nas_architecture\<close> is the attribute \<open>self.architecture\<close>, given by the list that its
  \<open>modules()\<close> returns: a module is a \<open>BaseMutable\<close> (a reference into the store) or
  some other module. No method of \<open>NasMutator\<close> assigns this attribute, and neither do
  the other sources: on a mutator that was only constructed and prepared it is absent.
\<close>

datatype module = Mutable_module ref | Other_module

record ('c, 'p, 'r) nas_mutator =
  nas_custom_groups :: "string list list"
  nas_search_groups :: "groups option"
  nas_arch_params :: "(string, 'p) dict attr"
  nas_name2unit :: "(string, ref) dict"
  nas_units :: "ref list"
  nas_architecture :: "module list attr"
  nas_is_supernet :: "bool option"
  nas_store :: "'c store"
  nas_rng :: 'r

text \<open>
  The code of the framework that \<open>NasMutator\<close> calls and that is not among the sources,
  taken as parameters:
  \<^item> \<open>init_from_predefined_model\<close>: \<open>OneShotMutableChannelUnit.init_from_predefined_model\<close>,
    which creates the units of a model (it returns their references and the store that
    holds them);
  \<^item> \<open>build_search_groups\<close>: \<open>GroupMixin.build_search_groups(supernet, custom_groups)\<close>;
  \<^item> \<open>sample_choice\<close>: \<open>mutable.sample_choice(arch_param)\<close>, with the arch param when one
    is passed, drawing from the random state;
  \<^item> \<open>fix_chosen\<close>: \<open>mutable.fix_chosen(choice)\<close>, which changes the mutable it is called on.
\<close>

record ('c, 'p, 'r, 'model) nas_framework =
  init_from_predefined_model :: "'model \<Rightarrow> 'c store \<Rightarrow> ref list \<times> 'c store"
  build_search_groups :: "'model \<Rightarrow> string list list \<Rightarrow> groups"
  sample_choice :: "'c mutable \<Rightarrow> 'p option \<Rightarrow> 'r \<Rightarrow> 'c \<times> 'r"
  fix_chosen :: "'c \<Rightarrow> 'c mutable \<Rightarrow> 'c mutable"

text \<open>
  \<open>NasMutator.__init__\<close>, on the object \<open>base\<close> that \<open>super().__init__(init_cfg)\<close> leaves.
\<close>

definition NasMutator_init ::
  "string list list option \<Rightarrow> ('c, 'p, 'r) nas_mutator \<Rightarrow> ('c, 'p, 'r) nas_mutator" where
  "NasMutator_init custom_groups base =
     base\<lparr>nas_custom_groups := (case custom_groups of None \<Rightarrow> [] | Some g \<Rightarrow> g),
          nas_search_groups := None\<rparr>"

text \<open>The property \<open>search_groups\<close>.\<close>

definition search_groups :: "('c, 'p, 'r) nas_mutator \<Rightarrow> error + groups" where
  "search_groups st =
     (case nas_search_groups st of
        None \<Rightarrow> Inl (RuntimeError ''Call `prepare_from_supernet` first to get the search space.'')
      | Some gs \<Rightarrow> Inr gs)"

text \<open>
  \<open>_prepare_from_predefined_model\<close>: every unit is set to its maximal choice and
  recorded under its name.
\<close>

fun predefined_units_loop ::
  "ref list \<Rightarrow> 'c store \<Rightarrow> (string, ref) dict \<Rightarrow> 'c store \<times> (string, ref) dict" where
  "predefined_units_loop [] h d = (h, d)"
| "predefined_units_loop (u # us) h d =
     (let h' = h(u := (h u)\<lparr>current_choice := max_choice (h u)\<rparr>)
      in predefined_units_loop us h' (setitem d (name (h' u)) u))"

definition NasMutator_prepare_from_predefined_model ::
  "('c, 'p, 'r, 'model) nas_framework \<Rightarrow> 'model \<Rightarrow> ('c, 'p, 'r) nas_mutator \<Rightarrow>
     ref list \<times> ('c, 'p, 'r) nas_mutator" where
  "NasMutator_prepare_from_predefined_model fw model st =
     (let (us, h1) = init_from_predefined_model fw model (nas_store st);
          (h2, n2u) = predefined_units_loop us h1 []
      in (us, st\<lparr>nas_name2unit := n2u, nas_store := h2\<rparr>))"

text \<open>
  \<open>for id, unit in enumerate(ModuleList(mutable_units)):
      _channel_groups['channel' + '_' + str(id)] = [unit]\<close>
\<close>

fun channel_groups_loop :: "nat \<Rightarrow> ref list \<Rightarrow> groups \<Rightarrow> groups" where
  "channel_groups_loop i [] g = g"
| "channel_groups_loop i (u # us) g =
     channel_groups_loop (Suc i) us (setitem g (''channel'' @ ''_'' @ str_nat i) [u])"

definition NasMutator_prepare_from_supernet ::
  "('c, 'p, 'r, 'model) nas_framework \<Rightarrow> 'model \<Rightarrow> ('c, 'p, 'r) nas_mutator \<Rightarrow>
     ('c, 'p, 'r) nas_mutator" where
  "NasMutator_prepare_from_supernet fw supernet st =
     (let search_groups0 = [];
          (us, st1) = NasMutator_prepare_from_predefined_model fw supernet
                        (st\<lparr>nas_search_groups := Some search_groups0\<rparr>);
          st2 = st1\<lparr>nas_units := us\<rparr>;
          mutable_units = filter (\<lambda>u. is_mutable (nas_store st2 u)) (nas_units st2);
          channel_groups = channel_groups_loop 0 mutable_units [];
          search_groups1 = dict_update search_groups0 channel_groups;
          value_groups = build_search_groups fw supernet (nas_custom_groups st2);
          search_groups2 = dict_update search_groups1 value_groups
      in st2\<lparr>nas_search_groups := Some search_groups2\<rparr>)"

text \<open>
  The properties \<open>max_choices\<close>, \<open>min_choices\<close> and \<open>current_choices\<close> run the same loop
  over the search groups, reading one attribute of the first mutable of each group:
  \<open>for name, mutables in self.search_groups.items(): d[name] = mutables[0].attribute\<close>.
\<close>

fun choices_loop ::
  "('c mutable \<Rightarrow> 'c) \<Rightarrow> 'c store \<Rightarrow> groups \<Rightarrow> (string, 'c) dict \<Rightarrow> error + (string, 'c) dict" where
  "choices_loop f h [] d = Inr d"
| "choices_loop f h ((n, ms) # gs) d =
     (case first_item ms of
        Inl e \<Rightarrow> Inl e
      | Inr m \<Rightarrow> choices_loop f h gs (setitem d n (f (h m))))"

definition max_choices :: "('c, 'p, 'r) nas_mutator \<Rightarrow> error + (string, 'c) dict" where
  "max_choices st =
     (case search_groups st of Inl e \<Rightarrow> Inl e
      | Inr gs \<Rightarrow> choices_loop max_choice (nas_store st) gs [])"

definition min_choices :: "('c, 'p, 'r) nas_mutator \<Rightarrow> error + (string, 'c) dict" where
  "min_choices st =
     (case search_groups st of Inl e \<Rightarrow> Inl e
      | Inr gs \<Rightarrow> choices_loop min_choice (nas_store st) gs [])"

definition current_choices :: "('c, 'p, 'r) nas_mutator \<Rightarrow> error + (string, 'c) dict" where
  "current_choices st =
     (case search_groups st of Inl e \<Rightarrow> Inl e
      | Inr gs \<Rightarrow> choices_loop current_choice (nas_store st) gs [])"

text \<open>
  \<open>set_choices\<close>. A group whose name is not a key of \<open>choices\<close> takes the choice under the
  alias of its first mutable; when that is no key either (an alias \<open>None\<close> is none, the
  keys being strings) the group is skipped.
\<close>

fun set_choices_loop :: "(string, 'c) dict \<Rightarrow> groups \<Rightarrow> 'c store \<Rightarrow> error + 'c store" where
  "set_choices_loop choices [] h = Inr h"
| "set_choices_loop choices ((n, ms) # gs) h =
     (case map_of choices n of
        Some choice \<Rightarrow> set_choices_loop choices gs (assign_choice ms choice h)
      | None \<Rightarrow>
          (case first_item ms of
             Inl e \<Rightarrow> Inl e
           | Inr m0 \<Rightarrow>
               (case alias (h m0) of
                  None \<Rightarrow> set_choices_loop choices gs h
                | Some a \<Rightarrow>
                    (case map_of choices a of
                       None \<Rightarrow> set_choices_loop choices gs h
                     | Some choice \<Rightarrow> set_choices_loop choices gs (assign_choice ms choice h)))))"

definition set_choices ::
  "(string, 'c) dict \<Rightarrow> ('c, 'p, 'r) nas_mutator \<Rightarrow> error + ('c, 'p, 'r) nas_mutator" where
  "set_choices choices st =
     (case search_groups st of Inl e \<Rightarrow> Inl e
      | Inr gs \<Rightarrow>
          (case set_choices_loop choices gs (nas_store st) of
             Inl e \<Rightarrow> Inl e
           | Inr h \<Rightarrow> Inr (st\<lparr>nas_store := h\<rparr>)))"

text \<open>
  \<open>sample_choices\<close>. \<open>hasattr(self, 'arch_params')\<close> evaluates the property
  \<open>arch_params\<close>: with no attribute \<open>_arch_params\<close> the AttributeError makes \<open>hasattr\<close>
  false, with \<open>_arch_params\<close> being \<open>None\<close> the property's RuntimeError passes through
  \<open>hasattr\<close>, and otherwise \<open>hasattr\<close> is true.
\<close>

fun sample_choices_loop ::
  "('c, 'p, 'r, 'model) nas_framework \<Rightarrow> string \<Rightarrow> (string, 'p) dict attr \<Rightarrow> 'c store \<Rightarrow>
     groups \<Rightarrow> (string, 'c) dict \<Rightarrow> 'r \<Rightarrow> error + ((string, 'c) dict \<times> 'r)" where
  "sample_choices_loop fw kind ap h [] d r = Inr (d, r)"
| "sample_choices_loop fw kind ap h ((n, ms) # gs) d r =
     (case ap of
        PyNone \<Rightarrow>
          Inl (RuntimeError ''Call `prepare_arch_params` first to get the search params.'')
      | Val params \<Rightarrow>
          (case getitem params n of
             Inl e \<Rightarrow> Inl e
           | Inr arch_param \<Rightarrow>
               (case first_item ms of
                  Inl e \<Rightarrow> Inl e
                | Inr m \<Rightarrow>
                    (let (c, r') = sample_choice fw (h m) (Some arch_param) r
                     in sample_choices_loop fw kind ap h gs (setitem d n c) r')))
      | Unset \<Rightarrow>
          (case first_item ms of
             Inl e \<Rightarrow> Inl e
           | Inr m \<Rightarrow>
               (if kind = ''max'' then
                  sample_choices_loop fw kind ap h gs (setitem d n (max_choice (h m))) r
                else if kind = ''min'' then
                  sample_choices_loop fw kind ap h gs (setitem d n (min_choice (h m))) r
                else
                  (let (c, r') = sample_choice fw (h m) None r
                   in sample_choices_loop fw kind ap h gs (setitem d n c) r'))))"

definition sample_choices ::
  "('c, 'p, 'r, 'model) nas_framework \<Rightarrow> string \<Rightarrow> ('c, 'p, 'r) nas_mutator \<Rightarrow>
     error + ((string, 'c) dict \<times> ('c, 'p, 'r) nas_mutator)" where
  "sample_choices fw kind st =
     (case search_groups st of Inl e \<Rightarrow> Inl e
      | Inr gs \<Rightarrow>
          (case sample_choices_loop fw kind (nas_arch_params st) (nas_store st) gs [] (nas_rng st) of
             Inl e \<Rightarrow> Inl e
           | Inr (choices, r) \<Rightarrow> Inr (choices, st\<lparr>nas_rng := r\<rparr>)))"

text \<open>
  \<open>set_max_choices\<close> and \<open>set_min_choices\<close>: the property \<open>max_choices\<close> (\<open>min_choices\<close>)
  is evaluated anew for every group, on the store as it is then.
\<close>

fun set_max_choices_loop :: "groups \<Rightarrow> groups \<Rightarrow> 'c store \<Rightarrow> error + 'c store" where
  "set_max_choices_loop all_groups [] h = Inr h"
| "set_max_choices_loop all_groups ((n, ms) # gs) h =
     (case choices_loop max_choice h all_groups [] of
        Inl e \<Rightarrow> Inl e
      | Inr d \<Rightarrow>
          (case getitem d n of
             Inl e \<Rightarrow> Inl e
           | Inr choice \<Rightarrow> set_max_choices_loop all_groups gs (assign_choice ms choice h)))"

definition set_max_choices :: "('c, 'p, 'r) nas_mutator \<Rightarrow> error + ('c, 'p, 'r) nas_mutator" where
  "set_max_choices st =
     (case search_groups st of Inl e \<Rightarrow> Inl e
      | Inr gs \<Rightarrow>
          (case set_max_choices_loop gs gs (nas_store st) of
             Inl e \<Rightarrow> Inl e
           | Inr h \<Rightarrow> Inr (st\<lparr>nas_store := h\<rparr>)))"

fun set_min_choices_loop :: "groups \<Rightarrow> groups \<Rightarrow> 'c store \<Rightarrow> error + 'c store" where
  "set_min_choices_loop all_groups [] h = Inr h"
| "set_min_choices_loop all_groups ((n, ms) # gs) h =
     (case choices_loop min_choice h all_groups [] of
        Inl e \<Rightarrow> Inl e
      | Inr d \<Rightarrow>
          (case getitem d n of
             Inl e \<Rightarrow> Inl e
           | Inr choice \<Rightarrow> set_min_choices_loop all_groups gs (assign_choice ms choice h)))"

definition set_min_choices :: "('c, 'p, 'r) nas_mutator \<Rightarrow> error + ('c, 'p, 'r) nas_mutator" where
  "set_min_choices st =
     (case search_groups st of Inl e \<Rightarrow> Inl e
      | Inr gs \<Rightarrow>
          (case set_min_choices_loop gs gs (nas_store st) of
             Inl e \<Rightarrow> Inl e
           | Inr h \<Rightarrow> Inr (st\<lparr>nas_store := h\<rparr>)))"

text \<open>
  \<open>fix_choices\<close>: \<open>sample_choices()\<close> with the default kind \<open>'random'\<close>, \<open>set_choices\<close>,
  then the loop over \<open>self.architecture.modules()\<close>. Reading \<open>self.architecture\<close>
  raises AttributeError when the mutator has no such attribute, and so does
  \<open>None.modules()\<close>.
\<close>

fun fix_modules_loop ::
  "('c, 'p, 'r, 'model) nas_framework \<Rightarrow> module list \<Rightarrow> 'c store \<Rightarrow> 'c store" where
  "fix_modules_loop fw [] h = h"
| "fix_modules_loop fw (Other_module # ms) h = fix_modules_loop fw ms h"
| "fix_modules_loop fw (Mutable_module r # ms) h =
     (if \<not> is_fixed (h r)
      then fix_modules_loop fw ms (h(r := fix_chosen fw (current_choice (h r)) (h r)))
      else fix_modules_loop fw ms h)"

definition fix_choices ::
  "('c, 'p, 'r, 'model) nas_framework \<Rightarrow> ('c, 'p, 'r) nas_mutator \<Rightarrow>
     error + ('c, 'p, 'r) nas_mutator" where
  "fix_choices fw st =
     (case sample_choices fw ''random'' st of
        Inl e \<Rightarrow> Inl e
      | Inr (choices, st1) \<Rightarrow>
          (case set_choices choices st1 of
             Inl e \<Rightarrow> Inl e
           | Inr st2 \<Rightarrow>
               (case nas_architecture st2 of
                  Unset \<Rightarrow> Inl (AttributeError ''architecture'')
                | PyNone \<Rightarrow> Inl (AttributeError ''modules'')
                | Val modules \<Rightarrow>
                    Inr (st2\<lparr>nas_store := fix_modules_loop fw modules (nas_store st2),
                              nas_is_supernet := Some False\<rparr>))))"

text \<open>
  Search groups are well formed when no mutable sits in two of them. Whether the groups
  that \<open>build_search_groups\<close> returns are so is decided by code outside the sources.
\<close>

fun groups_disjoint :: "groups \<Rightarrow> bool" where
  "groups_disjoint [] = True"
| "groups_disjoint ((n, ms) # gs) =
     ((\<forall>g \<in> set gs. set ms \<inter> set (snd g) = {}) \<and> groups_disjoint gs)"

section \<open>ChannelMutator\<close>

text \<open>
  A channel unit is a mutable with the attribute \<open>unit_predefined\<close>. The config of one
  unit is a dict with the optional entries \<open>'init_args'\<close> (a dict) and \<open>'channels'\<close>, as
  the template in the docstring of \<open>ChannelMutator\<close> has it; \<open>channel_unit_cfg\<close> is a
  unit class or a dict with the entries \<open>'type'\<close>, \<open>'default_args'\<close> (optional) and
  \<open>'units'\<close> (optional: a dict of unit configs by unit name, or the path of a file that
  holds one); \<open>parse_cfg\<close> is a \<open>ChannelAnalyzer\<close> or a dict.
\<close>

record 'c channel_unit = "'c mutable" +
  unit_predefined :: cfg_value

type_synonym 'c unit_store = "ref \<Rightarrow> 'c channel_unit"

type_synonym args = "(string, cfg_value) dict"

record unit_config =
  init_args :: "args option"
  channels :: "cfg_value option"

datatype units_entry = Units_path string | Units_dict "(string, unit_config) dict"

record unit_cfg_dict =
  cfg_type :: string
  cfg_default_args :: "args option"
  cfg_units :: "units_entry option"

datatype 'cls channel_unit_cfg = Unit_class 'cls | Unit_cfg unit_cfg_dict

datatype 'tr parse_cfg = Parse_analyzer 'tr | Parse_dict "(string, cfg_value) dict"

text \<open>
  The state of a \<open>ChannelMutator\<close> and the store of its units. \<open>cm_name2module\<close> is
  \<open>dict(supernet.named_modules())\<close>, of a type left open. A unit that is created is a
  new object: it gets the reference \<open>cm_next\<close>, the first one not in use, which then
  moves on.
\<close>

record ('tr, 'cls, 'nm, 'c) channel_mutator =
  cm_parse_cfg :: "'tr parse_cfg"
  cm_name2unit :: "(string, ref) dict"
  cm_units :: "ref list"
  cm_channel_unit_cfg :: "'cls channel_unit_cfg"
  cm_unit_class :: 'cls
  cm_unit_default_args :: args
  cm_units_cfg :: "(string, unit_config) dict"
  cm_custom_groups :: "string list list"
  cm_search_groups :: "groups option"
  cm_name2module :: "'nm option"
  cm_store :: "'c unit_store"
  cm_next :: ref

text \<open>
  The code that \<open>ChannelMutator\<close> calls and that is not among the sources, as parameters:
  the registry \<open>MODELS.module_dict\<close>, \<open>issubclass(cls, MutableChannelUnit)\<close>,
  \<open>fileio.load\<close>, \<open>supernet.named_modules()\<close>, \<open>TASK_UTILS.build\<close>, \<open>tracer.analyze\<close>,
  \<open>ChannelUnit.init_from_cfg\<close> and the name of the \<open>ChannelUnit\<close> it returns, the unit
  class's \<open>init_from_channel_unit\<close>, \<open>init_from_cfg\<close> and \<open>init_from_predefined_model\<close>
  (they create units: they return the new unit, or the list of the new units),
  \<open>unit.prepare_for_pruning\<close> (it changes the unit it is called on) and
  \<open>GroupMixin.build_search_groups(units, unit class, custom_groups)\<close>.
\<close>

record ('tr, 'cls, 'nm, 'c, 'model, 'cu) cm_framework =
  module_dict :: "(string, 'cls) dict"
  is_unit_class :: "'cls \<Rightarrow> bool"
  load :: "string \<Rightarrow> (string, unit_config) dict"
  named_modules :: "'model \<Rightarrow> 'nm"
  build_tracer :: "(string, cfg_value) dict \<Rightarrow> 'tr"
  analyze :: "'tr \<Rightarrow> 'model \<Rightarrow> (string, unit_config) dict"
  channel_unit_init_from_cfg :: "'model \<Rightarrow> unit_config \<Rightarrow> 'cu"
  channel_unit_name :: "'cu \<Rightarrow> string"
  init_from_channel_unit :: "'cls \<Rightarrow> 'cu \<Rightarrow> args \<Rightarrow> 'c channel_unit"
  init_from_cfg :: "'cls \<Rightarrow> 'model \<Rightarrow> unit_config \<Rightarrow> 'c channel_unit"
  units_from_predefined_model :: "'cls \<Rightarrow> 'model \<Rightarrow> 'c channel_unit list"
  prepare_for_pruning :: "'model \<Rightarrow> 'c channel_unit \<Rightarrow> 'c channel_unit"
  build_unit_search_groups :: "ref list \<Rightarrow> 'cls \<Rightarrow> string list list \<Rightarrow> groups"

text \<open>\<open>_parse_channel_unit_cfg\<close>\<close>

definition parse_channel_unit_cfg ::
  "('tr, 'cls, 'nm, 'c, 'model, 'cu) cm_framework \<Rightarrow> 'cls channel_unit_cfg \<Rightarrow>
     error + ('cls \<times> args \<times> (string, unit_config) dict)" where
  "parse_channel_unit_cfg fw channel_unit_cfg =
     (case channel_unit_cfg of
        Unit_cfg d \<Rightarrow>
          (case getitem (module_dict fw) (cfg_type d) of
             Inl e \<Rightarrow> Inl e
           | Inr unit_class \<Rightarrow>
               (let default_unit_args = (case cfg_default_args d of Some a \<Rightarrow> a | None \<Rightarrow> []);
                    unit_init_cfg =
                      (case cfg_units d of
                         Some (Units_dict u) \<Rightarrow> u
                       | Some (Units_path f) \<Rightarrow> load fw f
                       | None \<Rightarrow> [])
                in Inr (unit_class, default_unit_args, unit_init_cfg)))
      | Unit_class cls \<Rightarrow>
          if is_unit_class fw cls then Inr (cls, [], []) else Inl NotImplementedError)"

text \<open>
  \<open>ChannelMutator.__init__\<close>, on the object \<open>base\<close> that \<open>super().__init__(init_cfg)\<close>
  leaves. When \<open>channel_unit_cfg['units']\<close> is a dict, \<open>self.units_cfg\<close> is that very dict.
\<close>

definition ChannelMutator_init ::
  "('tr, 'cls, 'nm, 'c, 'model, 'cu) cm_framework \<Rightarrow> 'cls channel_unit_cfg \<Rightarrow> 'tr parse_cfg \<Rightarrow>
     string list list option \<Rightarrow> ('tr, 'cls, 'nm, 'c) channel_mutator \<Rightarrow>
     error + ('tr, 'cls, 'nm, 'c) channel_mutator" where
  "ChannelMutator_init fw channel_unit_cfg parse_cfg custom_groups base =
     (case (case parse_cfg of
              Parse_dict d \<Rightarrow>
                (case getitem d ''type'' of
                   Inl e \<Rightarrow> Inl e
                 | Inr t \<Rightarrow>
                     if t \<in> set [Cfg_str ''ChannelAnalyzer'', Cfg_str ''Config'', Cfg_str ''Predefined'']
                     then Inr () else Inl (AssertionError []))
            | Parse_analyzer tr \<Rightarrow> Inr ()) of
        Inl e \<Rightarrow> Inl e
      | Inr _ \<Rightarrow>
          (case parse_channel_unit_cfg fw channel_unit_cfg of
             Inl e \<Rightarrow> Inl e
           | Inr (unit_class, unit_default_args, units_cfg) \<Rightarrow>
               Inr (base\<lparr>cm_parse_cfg := parse_cfg,
                         cm_name2unit := [],
                         cm_units := [],
                         cm_channel_unit_cfg := channel_unit_cfg,
                         cm_unit_class := unit_class,
                         cm_unit_default_args := unit_default_args,
                         cm_units_cfg := units_cfg,
                         cm_custom_groups := (case custom_groups of None \<Rightarrow> [] | Some g \<Rightarrow> g)\<rparr>)))"

text \<open>
  Placing new objects in the store: one object, and a list of objects in its order.
\<close>

definition new_unit ::
  "'c channel_unit \<Rightarrow> 'c unit_store \<Rightarrow> ref \<Rightarrow> ref \<times> 'c unit_store \<times> ref" where
  "new_unit obj h nxt = (nxt, h(nxt := obj), Suc nxt)"

fun new_units ::
  "'c channel_unit list \<Rightarrow> 'c unit_store \<Rightarrow> ref \<Rightarrow> ref list \<times> 'c unit_store \<times> ref" where
  "new_units [] h nxt = ([], h, nxt)"
| "new_units (obj # objs) h nxt =
     (let (unit, h', nxt') = new_unit obj h nxt;
          (units, h'', nxt'') = new_units objs h' nxt'
      in (unit # units, h'', nxt''))"

text \<open>
  \<open>_convert_channel_unit_to_mutable\<close>: the init args of a unit are those of its entry
  in \<open>units_cfg\<close>, when it has one with \<open>'init_args'\<close>, and a copy of the default args
  otherwise.
\<close>

fun convert_channel_unit_to_mutable ::
  "('tr, 'cls, 'nm, 'c, 'model, 'cu) cm_framework \<Rightarrow> ('tr, 'cls, 'nm, 'c) channel_mutator \<Rightarrow>
     'cu list \<Rightarrow> 'c unit_store \<Rightarrow> ref \<Rightarrow> ref list \<Rightarrow> ref list \<times> 'c unit_store \<times> ref" where
  "convert_channel_unit_to_mutable fw st [] h nxt mutable_units = (mutable_units, h, nxt)"
| "convert_channel_unit_to_mutable fw st (unit # units) h nxt mutable_units =
     (let args0 = cm_unit_default_args st;
          args =
            (case map_of (cm_units_cfg st) (channel_unit_name fw unit) of
               Some ucfg \<Rightarrow> (case init_args ucfg of Some a \<Rightarrow> a | None \<Rightarrow> args0)
             | None \<Rightarrow> args0);
          (mutable_unit, h', nxt') =
            new_unit (init_from_channel_unit fw (cm_unit_class st) unit args) h nxt
      in convert_channel_unit_to_mutable fw st units h' nxt' (mutable_units @ [mutable_unit]))"

text \<open>\<open>_prepare_from_tracer\<close>\<close>

definition prepare_from_tracer ::
  "('tr, 'cls, 'nm, 'c, 'model, 'cu) cm_framework \<Rightarrow> 'model \<Rightarrow> 'tr parse_cfg \<Rightarrow>
     ('tr, 'cls, 'nm, 'c) channel_mutator \<Rightarrow> ref list \<times> ('tr, 'cls, 'nm, 'c) channel_mutator" where
  "prepare_from_tracer fw model parse_cfg st =
     (let tracer = (case parse_cfg of Parse_dict d \<Rightarrow> build_tracer fw d | Parse_analyzer tr \<Rightarrow> tr);
          unit_configs = analyze fw tracer model;
          units = map (\<lambda>cfg. channel_unit_init_from_cfg fw model cfg) (map snd unit_configs);
          (mutable_units, h, nxt) =
            convert_channel_unit_to_mutable fw st units (cm_store st) (cm_next st) []
      in (mutable_units, st\<lparr>cm_store := h, cm_next := nxt\<rparr>))"

text \<open>
  \<open>_prepare_from_cfg\<close>. The argument \<open>config\<close> is overwritten at once with
  \<open>self.channel_unit_cfg['units']\<close>. The loop runs over the entries of the config in
  their order, stores the merged init args back into each entry and creates the unit
  from the entry; a config that is a dict of \<open>channel_unit_cfg\<close> (and so is
  \<open>self.units_cfg\<close> as well) keeps the changed entries.
\<close>

fun prepare_from_cfg_loop ::
  "('tr, 'cls, 'nm, 'c, 'model, 'cu) cm_framework \<Rightarrow> 'model \<Rightarrow> 'cls \<Rightarrow> args \<Rightarrow>
     (string, unit_config) dict \<Rightarrow> 'c unit_store \<Rightarrow> ref \<Rightarrow> ref list \<Rightarrow>
     (string, unit_config) dict \<times> ref list \<times> 'c unit_store \<times> ref" where
  "prepare_from_cfg_loop fw model cls default_args [] h nxt units = ([], units, h, nxt)"
| "prepare_from_cfg_loop fw model cls default_args ((unit_key, entry) # config) h nxt units =
     (let args0 = default_args;
          args = (case init_args entry of Some a \<Rightarrow> dict_update args0 a | None \<Rightarrow> args0);
          entry' = entry\<lparr>init_args := Some args\<rparr>;
          (unit, h', nxt') = new_unit (init_from_cfg fw cls model entry') h nxt;
          (config', units', h'', nxt'') =
            prepare_from_cfg_loop fw model cls default_args config h' nxt' (units @ [unit])
      in ((unit_key, entry') # config', units', h'', nxt''))"

definition prepare_from_cfg ::
  "('tr, 'cls, 'nm, 'c, 'model, 'cu) cm_framework \<Rightarrow> 'model \<Rightarrow> (string, unit_config) dict \<Rightarrow>
     ('tr, 'cls, 'nm, 'c) channel_mutator \<Rightarrow>
     error + (ref list \<times> ('tr, 'cls, 'nm, 'c) channel_mutator)" where
  "prepare_from_cfg fw model config st =
     (case cm_channel_unit_cfg st of
        Unit_class cls \<Rightarrow> Inl (AssertionError [])
      | Unit_cfg d \<Rightarrow>
          (case cfg_units d of
             None \<Rightarrow> Inl (AssertionError [])
           | Some (Units_path f) \<Rightarrow>
               (let (config', units, h, nxt) =
                      prepare_from_cfg_loop fw model (cm_unit_class st) (cm_unit_default_args st)
                        (load fw f) (cm_store st) (cm_next st) []
                in Inr (units, st\<lparr>cm_store := h, cm_next := nxt\<rparr>))
           | Some (Units_dict u) \<Rightarrow>
               (let (config', units, h, nxt) =
                      prepare_from_cfg_loop fw model (cm_unit_class st) (cm_unit_default_args st)
                        u (cm_store st) (cm_next st) []
                in Inr (units,
                        st\<lparr>cm_channel_unit_cfg := Unit_cfg (d\<lparr>cfg_units := Some (Units_dict config')\<rparr>),
                           cm_units_cfg := config',
                           cm_store := h,
                           cm_next := nxt\<rparr>))))"

text \<open>
  \<open>ChannelMutator._prepare_from_predefined_model\<close>: \<open>pop\<close> removes \<open>'unit_predefined'\<close>
  from the default args at the first unit, so the later units get the default \<open>False\<close>.
  When \<open>channel_unit_cfg\<close> is a dict with \<open>'default_args'\<close>, \<open>self.unit_default_args\<close> is
  that very dict, and the config loses the key as well.
\<close>

fun unit_predefined_loop ::
  "ref list \<Rightarrow> args \<Rightarrow> 'c unit_store \<Rightarrow> args \<times> 'c unit_store" where
  "unit_predefined_loop [] default_args h = (default_args, h)"
| "unit_predefined_loop (unit # units) default_args h =
     (let (v, default_args') = dict_pop default_args ''unit_predefined'' (Cfg_bool False)
      in unit_predefined_loop units default_args' (h(unit := (h unit)\<lparr>unit_predefined := v\<rparr>)))"

definition ChannelMutator_prepare_from_predefined_model ::
  "('tr, 'cls, 'nm, 'c, 'model, 'cu) cm_framework \<Rightarrow> 'model \<Rightarrow>
     ('tr, 'cls, 'nm, 'c) channel_mutator \<Rightarrow> ref list \<times> ('tr, 'cls, 'nm, 'c) channel_mutator" where
  "ChannelMutator_prepare_from_predefined_model fw model st =
     (let (units, h, nxt) =
            new_units (units_from_predefined_model fw (cm_unit_class st) model)
              (cm_store st) (cm_next st);
          (default_args, h') = unit_predefined_loop units (cm_unit_default_args st) h;
          channel_unit_cfg =
            (case cm_channel_unit_cfg st of
               Unit_class cls \<Rightarrow> Unit_class cls
             | Unit_cfg d \<Rightarrow>
                 (case cfg_default_args d of
                    None \<Rightarrow> Unit_cfg d
                  | Some a \<Rightarrow> Unit_cfg (d\<lparr>cfg_default_args := Some default_args\<rparr>)))
      in (units, st\<lparr>cm_channel_unit_cfg := channel_unit_cfg,
                    cm_unit_default_args := default_args,
                    cm_store := h',
                    cm_next := nxt\<rparr>))"

text \<open>The property \<open>mutable_units\<close>.\<close>

definition mutable_units :: "('tr, 'cls, 'nm, 'c) channel_mutator \<Rightarrow> ref list" where
  "mutable_units st = filter (\<lambda>unit. is_mutable (cm_store st unit)) (cm_units st)"

text \<open>
  \<open>ChannelMutator.prepare_from_supernet\<close>: the choice of the way to get the units, then
  \<open>for unit in units: unit.prepare_for_pruning(supernet); self._name2unit[unit.name] = unit\<close>,
  then the search groups.
\<close>

fun prepare_units_loop ::
  "('tr, 'cls, 'nm, 'c, 'model, 'cu) cm_framework \<Rightarrow> 'model \<Rightarrow> ref list \<Rightarrow> 'c unit_store \<Rightarrow>
     (string, ref) dict \<Rightarrow> 'c unit_store \<times> (string, ref) dict" where
  "prepare_units_loop fw supernet [] h d = (h, d)"
| "prepare_units_loop fw supernet (unit # units) h d =
     (let h' = h(unit := prepare_for_pruning fw supernet (h unit))
      in prepare_units_loop fw supernet units h' (setitem d (name (h' unit)) unit))"

definition ChannelMutator_prepare_from_supernet ::
  "('tr, 'cls, 'nm, 'c, 'model, 'cu) cm_framework \<Rightarrow> 'model \<Rightarrow>
     ('tr, 'cls, 'nm, 'c) channel_mutator \<Rightarrow> error + ('tr, 'cls, 'nm, 'c) channel_mutator" where
  "ChannelMutator_prepare_from_supernet fw supernet st =
     (let st0 = st\<lparr>cm_name2module := Some (named_modules fw supernet)\<rparr> in
      case
        (case cm_parse_cfg st0 of
           Parse_analyzer tr \<Rightarrow> Inr (prepare_from_tracer fw supernet (cm_parse_cfg st0) st0)
         | Parse_dict d \<Rightarrow>
             (case getitem d ''type'' of
                Inl e \<Rightarrow> Inl e
              | Inr t \<Rightarrow>
                  (case py_in ''Analyzer'' t of
                     Inl e \<Rightarrow> Inl e
                   | Inr True \<Rightarrow> Inr (prepare_from_tracer fw supernet (cm_parse_cfg st0) st0)
                   | Inr False \<Rightarrow>
                       if t = Cfg_str ''Config'' then
                         prepare_from_cfg fw supernet (cm_units_cfg st0) st0
                       else if t = Cfg_str ''Predefined'' then
                         Inr (ChannelMutator_prepare_from_predefined_model fw supernet st0)
                       else Inl NotImplementedError))) of
        Inl e \<Rightarrow> Inl e
      | Inr (units, st1) \<Rightarrow>
          (let (h, n2u) = prepare_units_loop fw supernet units (cm_store st1) (cm_name2unit st1);
               st2 = st1\<lparr>cm_store := h, cm_name2unit := n2u, cm_units := units\<rparr>
           in Inr (st2\<lparr>cm_search_groups :=
                     Some (build_unit_search_groups fw (mutable_units st2) (cm_unit_class st2)
                             (cm_custom_groups st2))\<rparr>)))"

section \<open>Autoformer\<close>

text \<open>
  The argument \<open>mutators\<close> is \<open>None\<close>, a dict of mutator configs by name, or an object
  of another type (given by the name of its type); \<open>fix_subnet\<close> is \<open>None\<close>, a path, a
  dict or a built object, and is truthy as Python has it.
\<close>

type_synonym mutator_cfg = "(string, cfg_value) dict"

datatype mutators_arg =
    Mutators_None
  | Mutators_dict "(string, mutator_cfg) dict"
  | Mutators_other string

datatype fix_subnet_arg =
    Fix_None
  | Fix_path string
  | Fix_dict "(string, cfg_value) dict"
  | Fix_object

fun truthy :: "fix_subnet_arg \<Rightarrow> bool" where
  "truthy Fix_None = False"
| "truthy (Fix_path p) = (p \<noteq> [])"
| "truthy (Fix_dict d) = (d \<noteq> [])"
| "truthy Fix_object = True"

text \<open>
  The state of an \<open>Autoformer\<close>: the architecture, the built mutators, \<open>is_supernet\<close>, and
  \<open>af_space\<close> for whatever \<open>SpaceMixin\<close> keeps (the search space, the random state).
\<close>

record ('arch, 'mut, 'sp) autoformer =
  af_architecture :: 'arch
  af_mutators :: "(string, 'mut) dict"
  af_is_supernet :: bool
  af_space :: 'sp

text \<open>
  The code that \<open>Autoformer\<close> calls and that is not among the sources, as parameters:
  \<open>MODELS.build\<close>, the mutator's \<open>prepare_from_supernet\<close> (it changes the mutator and the
  architecture), \<open>load_fix_subnet\<close>, \<open>SpaceMixin\<close>'s \<open>_build_search_space\<close>,
  \<open>sample_subnet\<close> and \<open>set_subnet\<close>, the call of the architecture (\<open>forward\<close>, with its
  mode), and \<open>type_repr\<close> for the text of \<open>type(x)\<close>.
\<close>

record ('arch, 'mut, 'sp, 'sub, 'inp, 'ds, 'res) af_framework =
  build :: "mutator_cfg \<Rightarrow> 'mut"
  prepare_from_supernet :: "'mut \<Rightarrow> 'arch \<Rightarrow> 'mut \<times> 'arch"
  load_fix_subnet :: "'arch \<Rightarrow> fix_subnet_arg \<Rightarrow> 'arch"
  build_search_space :: "('arch, 'mut, 'sp) autoformer \<Rightarrow> ('arch, 'mut, 'sp) autoformer"
  sample_subnet :: "('arch, 'mut, 'sp) autoformer \<Rightarrow> 'sub \<times> ('arch, 'mut, 'sp) autoformer"
  set_subnet :: "'sub \<Rightarrow> ('arch, 'mut, 'sp) autoformer \<Rightarrow> ('arch, 'mut, 'sp) autoformer"
  forward :: "'arch \<Rightarrow> 'inp \<Rightarrow> 'ds option \<Rightarrow> string \<Rightarrow> 'res \<times> 'arch"
  type_repr :: "'mut \<Rightarrow> string"

text \<open>
  Reading a local variable of a function: a name that the function assigns somewhere is
  local in all of its body, and reading it before any assignment raises
  UnboundLocalError.
\<close>

definition read_local :: "string \<Rightarrow> 'a option \<Rightarrow> error + 'a" where
  "read_local n v = (case v of None \<Rightarrow> Inl (UnboundLocalError n) | Some x \<Rightarrow> Inr x)"

text \<open>
  \<open>if 'parse_cfg' in mutator_cfg and isinstance(mutator_cfg['parse_cfg'], dict):
      assert mutator_cfg['parse_cfg']['type'] == 'Predefined', 'autoformer only support predefined.'\<close>
\<close>

definition check_parse_cfg :: "mutator_cfg \<Rightarrow> error + unit" where
  "check_parse_cfg mutator_cfg =
     (case map_of mutator_cfg ''parse_cfg'' of
        Some (Cfg_dict parse_cfg) \<Rightarrow>
          (case getitem parse_cfg ''type'' of
             Inl e \<Rightarrow> Inl e
           | Inr t \<Rightarrow>
               if t = Cfg_str ''Predefined'' then Inr ()
               else Inl (AssertionError ''autoformer only support predefined.''))
      | _ \<Rightarrow> Inr ())"

text \<open>
  The loop over \<open>mutators.items()\<close>. The dict \<open>built_mutators\<close> holds the mutator object
  itself, so the entry stored before \<open>prepare_from_supernet\<close> is the prepared mutator
  after it. The local variable \<open>mutator\<close> is carried along.
\<close>

fun build_mutators_loop ::
  "('arch, 'mut, 'sp, 'sub, 'inp, 'ds, 'res) af_framework \<Rightarrow> (string, mutator_cfg) dict \<Rightarrow>
     (string, 'mut) dict \<Rightarrow> 'arch \<Rightarrow> 'mut option \<Rightarrow>
     error + ((string, 'mut) dict \<times> 'arch \<times> 'mut option)" where
  "build_mutators_loop fw [] built arch mutator = Inr (built, arch, mutator)"
| "build_mutators_loop fw ((n, mutator_cfg) # rest) built arch mutator =
     (case check_parse_cfg mutator_cfg of
        Inl e \<Rightarrow> Inl e
      | Inr _ \<Rightarrow>
          (let m = build fw mutator_cfg;
               built1 = setitem built n m;
               (m', arch') = prepare_from_supernet fw m arch;
               built2 = setitem built1 n m'
           in build_mutators_loop fw rest built2 arch' (Some m')))"

text \<open>
  \<open>Autoformer.__init__\<close>, after \<open>super().__init__\<close> has built the architecture. In the
  branch for a \<open>mutators\<close> that is no dict, the message of the TypeError is built from
  \<open>type(mutator)\<close>: the local variable \<open>mutator\<close>, which only the loop of the other branch
  assigns.
\<close>

definition Autoformer_init ::
  "('arch, 'mut, 'sp, 'sub, 'inp, 'ds, 'res) af_framework \<Rightarrow> ('arch, 'mut, 'sp) autoformer \<Rightarrow>
     mutators_arg \<Rightarrow> fix_subnet_arg \<Rightarrow> error + ('arch, 'mut, 'sp) autoformer" where
  "Autoformer_init fw base mutators fix_subnet =
     (let mutator = None in
      if truthy fix_subnet then
        Inr (base\<lparr>af_architecture := load_fix_subnet fw (af_architecture base) fix_subnet,
                  af_is_supernet := False\<rparr>)
      else
        (case mutators of
           Mutators_None \<Rightarrow> Inl (AssertionError ''mutator cannot be None when fix_subnet is None.'')
         | Mutators_dict d \<Rightarrow>
             (case build_mutators_loop fw d [] (af_architecture base) mutator of
                Inl e \<Rightarrow> Inl e
              | Inr (built_mutators, arch, _) \<Rightarrow>
                  Inr ((build_search_space fw
                          (base\<lparr>af_architecture := arch, af_mutators := built_mutators\<rparr>))
                       \<lparr>af_is_supernet := True\<rparr>))
         | Mutators_other ty \<Rightarrow>
             (case read_local ''mutator'' mutator of
                Inl e \<Rightarrow> Inl e
              | Inr m \<Rightarrow>
                  Inl (TypeError (''mutator should be a `dict` but got '' @ type_repr fw m)))))"

text \<open>
  \<open>Autoformer.loss\<close>. Besides the result and the new state it returns the calls it made,
  in their order.
\<close>

datatype 'sub af_call = Call_sample_subnet | Call_set_subnet 'sub | Call_architecture string

definition loss ::
  "('arch, 'mut, 'sp, 'sub, 'inp, 'ds, 'res) af_framework \<Rightarrow> 'inp \<Rightarrow> 'ds option \<Rightarrow>
     ('arch, 'mut, 'sp) autoformer \<Rightarrow> 'res \<times> ('arch, 'mut, 'sp) autoformer \<times> 'sub af_call list" where
  "loss fw batch_inputs data_samples st =
     (let (calls, st1) =
            (if af_is_supernet st then
               (let (subnet, st') = sample_subnet fw st
                in ([Call_sample_subnet, Call_set_subnet subnet], set_subnet fw subnet st'))
             else ([], st));
          (result, arch) = forward fw (af_architecture st1) batch_inputs data_samples ''loss''
      in (result, st1\<lparr>af_architecture := arch\<rparr>, calls @ [Call_architecture ''loss'']))"

section \<open>Auxiliary definitions and example data\<close>

text \<open>
  The choice that \<open>set_choices\<close> takes for one group, in closed form: the value under
  the group's name, else the value under the alias of the group's first mutable, else
  none. It is used to state what the loop does, not to define it.
\<close>

definition group_choice :: "(string, 'c) dict \<Rightarrow> 'c store \<Rightarrow> string \<times> ref list \<Rightarrow> 'c option" where
  "group_choice choices h g =
     (case map_of choices (fst g) of
        Some c \<Rightarrow> Some c
      | None \<Rightarrow>
          (case snd g of
             [] \<Rightarrow> None
           | m0 # _ \<Rightarrow> (case alias (h m0) of None \<Rightarrow> None | Some a \<Rightarrow> map_of choices a)))"

text \<open>
  A small mutator for concrete runs: five mutables with integer choices, three search
  groups (the second is reached through the alias of its first mutable), a framework
  whose \<open>sample_choice\<close> draws from a counter.
\<close>

definition ex_store :: "int store" where
  "ex_store r =
     \<lparr>name = ''unit_'' @ str_nat r,
      alias = (if r = 2 then Some ''shared'' else None),
      is_mutable = (r \<noteq> 1),
      is_fixed = (r = 4),
      current_choice = 0,
      max_choice = 8 + int r,
      min_choice = 1 + int r\<rparr>"

definition ex_groups :: groups where
  "ex_groups = [(''g0'', [0, 1]), (''g1'', [2]), (''g2'', [3])]"

definition ex_nas :: "(int, unit, nat) nas_mutator" where
  "ex_nas =
     \<lparr>nas_custom_groups = [],
      nas_search_groups = Some ex_groups,
      nas_arch_params = Unset,
      nas_name2unit = [],
      nas_units = [],
      nas_architecture = Val [Mutable_module 0, Other_module, Mutable_module 4, Mutable_module 2],
      nas_is_supernet = Some True,
      nas_store = ex_store,
      nas_rng = 0\<rparr>"

definition ex_choices :: "(string, int) dict" where
  "ex_choices = [(''g0'', 5), (''shared'', 7)]"

definition ex_fw :: "(int, unit, nat, unit) nas_framework" where
  "ex_fw =
     \<lparr>init_from_predefined_model = (\<lambda>model h. ([0, 1], h)),
      build_search_groups = (\<lambda>model custom. [(''value_0'', [2]), (''value_1'', [3, 4])]),
      sample_choice = (\<lambda>m p r. (min_choice m + int r, Suc r)),
      fix_chosen = (\<lambda>c m. m\<lparr>is_fixed := True, current_choice := c\<rparr>)\<rparr>"

text \<open>An \<open>Autoformer\<close> for concrete runs: the architecture is a number, the width in use.\<close>

definition ex_af_fw :: "(nat, string, nat, nat, nat, unit, nat) af_framework" where
  "ex_af_fw =
     \<lparr>build = (\<lambda>cfg. ''mutator''),
      prepare_from_supernet = (\<lambda>m arch. (m @ ''_prepared'', arch)),
      load_fix_subnet = (\<lambda>arch fix. arch),
      build_search_space = (\<lambda>st. st),
      sample_subnet = (\<lambda>st. (af_space st + 2, st\<lparr>af_space := af_space st + 1\<rparr>)),
      set_subnet = (\<lambda>subnet st. st\<lparr>af_architecture := subnet\<rparr>),
      forward = (\<lambda>arch x ds mode. (arch * x, arch)),
      type_repr = (\<lambda>m. ''<class Mutator>'')\<rparr>"

definition ex_af :: "bool \<Rightarrow> (nat, string, nat) autoformer" where
  "ex_af b = \<lparr>af_architecture = 10, af_mutators = [], af_is_supernet = b, af_space = 1\<rparr>"

text \<open>The \<open>BaseMutable\<close> modules among \<open>self.architecture.modules()\<close>.\<close>

fun mutable_refs :: "module list \<Rightarrow> ref list" where
  "mutable_refs [] = []"
| "mutable_refs (Other_module # ms) = mutable_refs ms"
| "mutable_refs (Mutable_module r # ms) = r # mutable_refs ms"

text \<open>
  What \<open>ChannelMutator.prepare_from_supernet\<close> has done when it returns the state \<open>st'\<close>
  from the state \<open>st\<close>, having created the unit objects \<open>objs\<close>: \<open>self.units\<close> are the new
  references, in the order of creation; each new unit is its object after
  \<open>prepare_for_pruning\<close>, and the objects that were there before are unchanged; under
  the name of each unit \<open>_name2unit\<close> holds the last unit of that name (the unit itself
  when names are not shared); the search groups are \<open>build_search_groups\<close> of the
  mutable units, the unit class and the custom groups.
\<close>

definition units_registered ::
  "('tr, 'cls, 'nm, 'c, 'model, 'cu) cm_framework \<Rightarrow> 'model \<Rightarrow>
     ('tr, 'cls, 'nm, 'c) channel_mutator \<Rightarrow> 'c channel_unit list \<Rightarrow>
     ('tr, 'cls, 'nm, 'c) channel_mutator \<Rightarrow> bool" where
  "units_registered fw supernet st objs st' \<longleftrightarrow>
     cm_units st' = [cm_next st..<cm_next st + length objs] \<and>
     (\<forall>i < length objs.
        cm_store st' (cm_next st + i) = prepare_for_pruning fw supernet (objs ! i)) \<and>
     (\<forall>r. r \<notin> set (cm_units st') \<longrightarrow> cm_store st' r = cm_store st r) \<and>
     (\<forall>u \<in> set (cm_units st').
        map_of (cm_name2unit st') (name (cm_store st' u)) =
          Some (last (filter (\<lambda>v. name (cm_store st' v) = name (cm_store st' u))
                        (cm_units st')))) \<and>
     cm_search_groups st' =
       Some (build_unit_search_groups fw
               (filter (\<lambda>u. is_mutable (cm_store st' u)) (cm_units st'))
               (cm_unit_class st) (cm_custom_groups st))"

text \<open>
  A \<open>ChannelMutator\<close> for concrete runs: a tracer that finds two units, a pre-defined
  model with two units, and a config in which the unit \<open>conv1\<close> is not mutable.
\<close>

definition ex_unit :: "string \<Rightarrow> bool \<Rightarrow> int channel_unit" where
  "ex_unit n m =
     \<lparr>name = n, alias = None, is_mutable = m, is_fixed = False,
      current_choice = 0, max_choice = 8, min_choice = 1, unit_predefined = Cfg_none\<rparr>"

definition ex_cm_fw :: "(string, string, string, int, unit, string) cm_framework" where
  "ex_cm_fw =
     \<lparr>module_dict = [(''SequentialMutableChannelUnit'', ''SequentialMutableChannelUnit'')],
      is_unit_class = (\<lambda>cls. True),
      load = (\<lambda>f. []),
      named_modules = (\<lambda>model. ''modules''),
      build_tracer = (\<lambda>cfg. ''tracer''),
      analyze = (\<lambda>tracer model.
        [(''conv0'', \<lparr>init_args = None, channels = Some (Cfg_str ''conv0'')\<rparr>),
         (''conv1'', \<lparr>init_args = None, channels = Some (Cfg_str ''conv1'')\<rparr>)]),
      channel_unit_init_from_cfg =
        (\<lambda>model cfg. case channels cfg of Some (Cfg_str n) \<Rightarrow> n | _ \<Rightarrow> ''unit''),
      channel_unit_name = (\<lambda>cu. cu),
      init_from_channel_unit =
        (\<lambda>cls cu a. ex_unit cu (map_of a ''mutable'' \<noteq> Some (Cfg_bool False))),
      init_from_cfg =
        (\<lambda>cls model cfg. ex_unit ''configured''
           (case init_args cfg of
              Some a \<Rightarrow> map_of a ''mutable'' \<noteq> Some (Cfg_bool False)
            | None \<Rightarrow> True)),
      units_from_predefined_model = (\<lambda>cls model. [ex_unit ''conv0'' True, ex_unit ''conv1'' False]),
      prepare_for_pruning = (\<lambda>model u. u\<lparr>current_choice := max_choice u\<rparr>),
      build_unit_search_groups = (\<lambda>units cls custom. map (\<lambda>u. (str_nat u, [u])) units)\<rparr>"

definition ex_cm :: "string \<Rightarrow> (string, string, string, int) channel_mutator" where
  "ex_cm t =
     \<lparr>cm_parse_cfg = Parse_dict [(''type'', Cfg_str t)],
      cm_name2unit = [],
      cm_units = [],
      cm_channel_unit_cfg =
        Unit_cfg \<lparr>cfg_type = ''SequentialMutableChannelUnit'',
                  cfg_default_args = Some [(''unit_predefined'', Cfg_bool True)],
                  cfg_units = Some (Units_dict
                    [(''conv1'', \<lparr>init_args = Some [(''mutable'', Cfg_bool False)],
                                  channels = None\<rparr>)])\<rparr>,
      cm_unit_class = ''SequentialMutableChannelUnit'',
      cm_unit_default_args = [(''unit_predefined'', Cfg_bool True)],
      cm_units_cfg =
        [(''conv1'', \<lparr>init_args = Some [(''mutable'', Cfg_bool False)], channels = None\<rparr>)],
      cm_custom_groups = [],
      cm_search_groups = None,
      cm_name2module = None,
      cm_store = (\<lambda>r. ex_unit ''free'' False),
      cm_next = 2\<rparr>"





section \<open>Properties of NasMutator\<close>


lemma str_nat_zero: "str_nat 0 = ''0''"
  by code_simp

lemma assign_choice_apply:
  "assign_choice ms c h r = (if r \<in> set ms then (h r)\<lparr>current_choice := c\<rparr> else h r)"
  by (induction ms arbitrary: h) auto

lemma predefined_units_loop_store:
  "fst (predefined_units_loop us h d) r =
     (if r \<in> set us then (h r)\<lparr>current_choice := max_choice (h r)\<rparr> else h r)"
  by (induction us arbitrary: h d) (auto simp: Let_def)

lemma set_choices_loop_step:
  "set_choices_loop choices (g # gs) h =
     (if map_of choices (fst g) = None \<and> snd g = [] then Inl IndexError
      else set_choices_loop choices gs
             (case group_choice choices h g of None \<Rightarrow> h | Some c \<Rightarrow> assign_choice (snd g) c h))"
  by (cases g) (auto simp: group_choice_def first_item_def split: option.splits list.splits)

lemma group_choice_cong:
  "(\<And>r. alias (h' r) = alias (h r)) \<Longrightarrow> group_choice choices h' g = group_choice choices h g"
  by (simp add: group_choice_def cong: option.case_cong list.case_cong)

lemma set_choices_loop_frame:
  "set_choices_loop choices gs h = Inr h' \<Longrightarrow> \<forall>g \<in> set gs. r \<notin> set (snd g) \<Longrightarrow> h' r = h r"
proof (induction gs arbitrary: h)
  case Nil
  then show ?case by simp
next
  case (Cons g gs)
  then show ?case
    by (auto simp: set_choices_loop_step assign_choice_apply split: if_splits option.splits)
qed

lemma set_choices_loop_group:
  "set_choices_loop choices gs h = Inr h' \<Longrightarrow> groups_disjoint gs \<Longrightarrow> g \<in> set gs \<Longrightarrow>
   m \<in> set (snd g) \<Longrightarrow>
   h' m = (case group_choice choices h g of None \<Rightarrow> h m | Some c \<Rightarrow> (h m)\<lparr>current_choice := c\<rparr>)"
proof (induction gs arbitrary: h)
  case Nil
  then show ?case by simp
next
  case (Cons g0 gs)
  obtain n0 ms0 where g0: "g0 = (n0, ms0)" by (cases g0)
  define h1 where "h1 = (case group_choice choices h g0 of None \<Rightarrow> h | Some c \<Rightarrow> assign_choice (snd g0) c h)"
  from Cons.prems(1) have run: "set_choices_loop choices gs h1 = Inr h'"
    by (simp add: set_choices_loop_step h1_def split: if_splits)
  from Cons.prems(2) have dis: "\<forall>g' \<in> set gs. set ms0 \<inter> set (snd g') = {}" and dgs: "groups_disjoint gs"
    by (simp_all add: g0)
  have al: "\<And>r. alias (h1 r) = alias (h r)"
    by (simp add: h1_def assign_choice_apply split: option.splits)
  show ?case
  proof (cases "g = g0")
    case True
    with Cons.prems(4) have m: "m \<in> set ms0" by (simp add: g0)
    with dis have "\<forall>g' \<in> set gs. m \<notin> set (snd g')" by auto
    with run have "h' m = h1 m" by (rule set_choices_loop_frame)
    with m True show ?thesis
      by (simp add: h1_def g0 assign_choice_apply split: option.splits)
  next
    case False
    with Cons.prems(3) have gin: "g \<in> set gs" by simp
    from Cons.IH [OF run dgs gin Cons.prems(4)]
    have "h' m = (case group_choice choices h1 g of None \<Rightarrow> h1 m | Some c \<Rightarrow> (h1 m)\<lparr>current_choice := c\<rparr>)" .
    moreover have "group_choice choices h1 g = group_choice choices h g"
      by (rule group_choice_cong) (rule al)
    moreover from dis gin Cons.prems(4) have "m \<notin> set ms0" by auto
    then have "h1 m = h m"
      by (simp add: h1_def g0 assign_choice_apply split: option.splits)
    ultimately show ?thesis by (simp cong: option.case_cong)
  qed
qed

lemma set_choices_loop_total:
  "\<forall>g \<in> set gs. map_of choices (fst g) = None \<longrightarrow> snd g \<noteq> [] \<Longrightarrow>
   \<exists>h'. set_choices_loop choices gs h = Inr h'"
  by (induction gs arbitrary: h) (auto simp: set_choices_loop_step)

text \<open>
  C3. Let the search groups be built, with no mutable in two groups, and let every group
  whose name is no key of \<open>choices\<close> have a first mutable. Then \<open>set_choices\<close> returns,
  and for a group \<open>(n, ms)\<close>: when \<open>n\<close> is a key, or failing that the alias of the first
  mutable is, every mutable of the group afterwards has the chosen value as its
  \<open>current_choice\<close> (and is otherwise as before), so the members share one choice; when
  neither is a key the members are left as they were.
\<close>

theorem set_choices_group_shares_choice:
  assumes "nas_search_groups st = Some gs"
    and "groups_disjoint gs"
    and "\<forall>g \<in> set gs. map_of choices (fst g) = None \<longrightarrow> snd g \<noteq> []"
    and "(n, ms) \<in> set gs"
  shows "\<exists>st'. set_choices choices st = Inr st' \<and>
     (\<forall>v. map_of choices n = Some v \<longrightarrow>
        (\<forall>m \<in> set ms. nas_store st' m = (nas_store st m)\<lparr>current_choice := v\<rparr>)) \<and>
     (\<forall>m0 rest a v. map_of choices n = None \<and> ms = m0 # rest \<and>
        alias (nas_store st m0) = Some a \<and> map_of choices a = Some v \<longrightarrow>
        (\<forall>m \<in> set ms. nas_store st' m = (nas_store st m)\<lparr>current_choice := v\<rparr>)) \<and>
     (\<forall>m0 rest. map_of choices n = None \<and> ms = m0 # rest \<and>
        (\<forall>a. alias (nas_store st m0) = Some a \<longrightarrow> map_of choices a = None) \<longrightarrow>
        (\<forall>m \<in> set ms. nas_store st' m = nas_store st m))"
proof -
  from assms(3) obtain h' where run: "set_choices_loop choices gs (nas_store st) = Inr h'"
    using set_choices_loop_total by blast
  define st' where "st' = st\<lparr>nas_store := h'\<rparr>"
  have res: "set_choices choices st = Inr st'"
    by (simp add: set_choices_def search_groups_def assms(1) run st'_def)
  have grp: "\<And>m. m \<in> set ms \<Longrightarrow>
      nas_store st' m = (case group_choice choices (nas_store st) (n, ms) of
                None \<Rightarrow> nas_store st m
              | Some c \<Rightarrow> (nas_store st m)\<lparr>current_choice := c\<rparr>)"
    using set_choices_loop_group [OF run assms(2) assms(4)] by (simp add: st'_def)
  have a: "\<forall>v. map_of choices n = Some v \<longrightarrow>
        (\<forall>m \<in> set ms. nas_store st' m = (nas_store st m)\<lparr>current_choice := v\<rparr>)"
    by (simp add: grp group_choice_def)
  have b: "\<forall>m0 rest a v. map_of choices n = None \<and> ms = m0 # rest \<and>
        alias (nas_store st m0) = Some a \<and> map_of choices a = Some v \<longrightarrow>
        (\<forall>m \<in> set ms. nas_store st' m = (nas_store st m)\<lparr>current_choice := v\<rparr>)"
    using grp by (auto simp: group_choice_def)
  have c: "\<forall>m0 rest. map_of choices n = None \<and> ms = m0 # rest \<and>
        (\<forall>a. alias (nas_store st m0) = Some a \<longrightarrow> map_of choices a = None) \<longrightarrow>
        (\<forall>m \<in> set ms. nas_store st' m = nas_store st m)"
    using grp by (auto simp: group_choice_def split: option.splits)
  from res a b c show ?thesis by blast
qed

theorem set_choices_group_shares_choice_witness:
  "\<exists>st'. set_choices ex_choices ex_nas = Inr st' \<and>
     current_choice (nas_store st' 0) = 5 \<and> current_choice (nas_store st' 1) = 5"
proof -
  have "\<exists>st'. set_choices ex_choices ex_nas = Inr st' \<and>
     (\<forall>v. map_of ex_choices ''g0'' = Some v \<longrightarrow>
        (\<forall>m \<in> set [0, 1]. nas_store st' m = (nas_store ex_nas m)\<lparr>current_choice := v\<rparr>))"
    using set_choices_group_shares_choice [of ex_nas ex_groups ex_choices "''g0''" "[0, 1]"]
    by (simp add: ex_nas_def ex_groups_def ex_choices_def)
  then show ?thesis
    by (auto simp: ex_choices_def)
qed

lemma setitem_fresh: "k \<notin> fst ` set d \<Longrightarrow> setitem d k v = d @ [(k, v)]"
  by (induction d) (auto simp: setitem_def)

lemma dict_update_fresh:
  "distinct (map fst d @ map fst e) \<Longrightarrow> dict_update d e = d @ e"
proof (induction e arbitrary: d)
  case Nil
  then show ?case by simp
next
  case (Cons p e)
  obtain k v where p: "p = (k, v)" by (cases p)
  from Cons.prems have fresh: "k \<notin> fst ` set d" by (auto simp: p)
  from Cons.prems have "distinct (map fst (d @ [(k, v)]) @ map fst e)" by (auto simp: p)
  from Cons.IH [OF this] fresh show ?case by (simp add: p setitem_fresh)
qed

lemma choices_loop_nonempty:
  "\<forall>g \<in> set gs. snd g \<noteq> [] \<Longrightarrow>
   choices_loop f h gs d = Inr (dict_update d (map (\<lambda>g. (fst g, f (h (hd (snd g))))) gs))"
proof (induction gs arbitrary: d)
  case Nil
  then show ?case by simp
next
  case (Cons g gs)
  obtain n ms where g: "g = (n, ms)" by (cases g)
  from Cons.prems obtain m rest where ms: "ms = m # rest" by (cases ms) (auto simp: g)
  from Cons.prems have "\<forall>g \<in> set gs. snd g \<noteq> []" by simp
  from Cons.IH [OF this] show ?case by (simp add: g ms first_item_def)
qed

lemma choices_loop_distinct:
  "\<forall>g \<in> set gs. snd g \<noteq> [] \<Longrightarrow> distinct (map fst gs) \<Longrightarrow>
   choices_loop f h gs [] = Inr (map (\<lambda>g. (fst g, f (h (hd (snd g))))) gs)"
  using dict_update_fresh [of "[]" "map (\<lambda>g. (fst g, f (h (hd (snd g))))) gs"]
  by (simp add: choices_loop_nonempty comp_def)

lemma dict_rebuild:
  "distinct (map fst c) \<Longrightarrow> map (\<lambda>k. (k, the (map_of c k))) (map fst c) = c"
proof (induction c)
  case Nil
  then show ?case by simp
next
  case (Cons p c)
  obtain k v where p: "p = (k, v)" by (cases p)
  from Cons.prems have k: "k \<notin> fst ` set c" and d: "distinct (map fst c)" by (auto simp: p)
  have "map (\<lambda>k'. (k', the (map_of (p # c) k'))) (map fst c) = map (\<lambda>k'. (k', the (map_of c k'))) (map fst c)"
    using k by (auto simp: p)
  with Cons.IH [OF d] show ?case by (simp add: p)
qed

lemma sample_choices_loop_keys:
  "sample_choices_loop fw kind Unset h gs d r = Inr (d', r') \<Longrightarrow>
   distinct (map fst d @ map fst gs) \<Longrightarrow>
   map fst d' = map fst d @ map fst gs \<and> (\<forall>g \<in> set gs. snd g \<noteq> [])"
proof (induction gs arbitrary: d r)
  case Nil
  then show ?case by simp
next
  case (Cons g gs)
  obtain n ms where g: "g = (n, ms)" by (cases g)
  from Cons.prems(1) obtain m rest where ms: "ms = m # rest"
    by (cases ms) (auto simp: g first_item_def)
  from Cons.prems(2) have fresh: "n \<notin> fst ` set d" by (auto simp: g)
  from Cons.prems(1) obtain c r1 where
    run: "sample_choices_loop fw kind Unset h gs (setitem d n c) r1 = Inr (d', r')"
    by (auto simp: g ms first_item_def split: if_splits prod.splits)
  from Cons.prems(2) have "distinct (map fst (setitem d n c) @ map fst gs)"
    by (auto simp: g setitem_fresh [OF fresh])
  from Cons.IH [OF run this] show ?case
    by (simp add: g ms setitem_fresh [OF fresh])
qed

text \<open>
  C9. After \<open>NasMutator.prepare_from_supernet\<close> the units of the mutator are the ones
  \<open>init_from_predefined_model\<close> discovered, and every one of them (so every mutable one)
  has its \<open>current_choice\<close> equal to its \<open>max_choice\<close>.
\<close>

theorem prepare_from_supernet_units_at_max_choice:
  "nas_units (NasMutator_prepare_from_supernet fw supernet st) =
     fst (init_from_predefined_model fw supernet (nas_store st))
   \<and> (\<forall>u \<in> set (nas_units (NasMutator_prepare_from_supernet fw supernet st)).
        current_choice (nas_store (NasMutator_prepare_from_supernet fw supernet st) u) =
        max_choice (nas_store (NasMutator_prepare_from_supernet fw supernet st) u))"
proof -
  obtain us h1 where i: "init_from_predefined_model fw supernet (nas_store st) = (us, h1)"
    by (cases "init_from_predefined_model fw supernet (nas_store st)")
  obtain h2 n2u where l: "predefined_units_loop us h1 [] = (h2, n2u)"
    by (cases "predefined_units_loop us h1 []")
  have h2: "\<And>r. h2 r = (if r \<in> set us then (h1 r)\<lparr>current_choice := max_choice (h1 r)\<rparr> else h1 r)"
    using predefined_units_loop_store [of us h1 "[]"] by (simp add: l)
  have u: "nas_units (NasMutator_prepare_from_supernet fw supernet st) = us"
    by (simp add: NasMutator_prepare_from_supernet_def
        NasMutator_prepare_from_predefined_model_def i l Let_def)
  have s: "nas_store (NasMutator_prepare_from_supernet fw supernet st) = h2"
    by (simp add: NasMutator_prepare_from_supernet_def
        NasMutator_prepare_from_predefined_model_def i l Let_def)
  show ?thesis by (simp add: u s i h2)
qed

theorem prepare_from_supernet_units_at_max_choice_witness:
  "nas_units (NasMutator_prepare_from_supernet ex_fw () ex_nas) = [0, 1]
   \<and> current_choice (nas_store (NasMutator_prepare_from_supernet ex_fw () ex_nas) 1) = 9
   \<and> max_choice (nas_store (NasMutator_prepare_from_supernet ex_fw () ex_nas) 1) = 9"
proof -
  have u: "nas_units (NasMutator_prepare_from_supernet ex_fw () ex_nas) = [0, 1]"
    by (simp add: NasMutator_prepare_from_supernet_def
        NasMutator_prepare_from_predefined_model_def ex_fw_def ex_nas_def Let_def)
  have m: "max_choice (nas_store (NasMutator_prepare_from_supernet ex_fw () ex_nas) 1) = 9"
    by (simp add: NasMutator_prepare_from_supernet_def
        NasMutator_prepare_from_predefined_model_def ex_fw_def ex_nas_def ex_store_def Let_def)
  from prepare_from_supernet_units_at_max_choice [of ex_fw "()" ex_nas] u m
  show ?thesis by simp
qed

lemma group_choice_key:
  "map_of c (fst g) = Some v \<Longrightarrow> group_choice c h g = Some v"
  by (simp add: group_choice_def)

lemma roundtrip_core:
  assumes keys: "map fst c = map fst gs"
    and dist: "distinct (map fst gs)"
    and disj: "groups_disjoint gs"
    and ne: "\<forall>g \<in> set gs. snd g \<noteq> []"
  shows "\<exists>h'. set_choices_loop c gs h = Inr h' \<and> choices_loop current_choice h' gs [] = Inr c"
proof -
  from ne obtain h' where run: "set_choices_loop c gs h = Inr h'"
    using set_choices_loop_total [of gs c h] by blast
  have val: "current_choice (h' (hd (snd g))) = the (map_of c (fst g))" if g: "g \<in> set gs" for g
  proof -
    from g keys have "fst g \<in> fst ` set c"
      by (metis image_eqI list.set_map)
    then obtain v where v: "map_of c (fst g) = Some v"
      by (metis domD dom_map_of_conv_image_fst)
    from g ne have "hd (snd g) \<in> set (snd g)" by simp
    from set_choices_loop_group [OF run disj g this] group_choice_key [OF v]
    show ?thesis by (simp add: v)
  qed
  have "choices_loop current_choice h' gs [] =
          Inr (map (\<lambda>g. (fst g, current_choice (h' (hd (snd g))))) gs)"
    by (rule choices_loop_distinct [OF ne dist])
  also have "map (\<lambda>g. (fst g, current_choice (h' (hd (snd g))))) gs =
             map (\<lambda>g. (fst g, the (map_of c (fst g)))) gs"
    using val by simp
  also have "\<dots> = map (\<lambda>k. (k, the (map_of c k))) (map fst c)"
    by (simp add: keys comp_def)
  also have "\<dots> = c"
    by (rule dict_rebuild) (simp add: keys dist)
  finally show ?thesis using run by simp
qed

text \<open>
  C6. With built search groups (distinct names, no mutable in two groups) and no
  \<open>_arch_params\<close> attribute: when \<open>sample_choices(kind)\<close> returns \<open>c\<close>, then
  \<open>set_choices(c)\<close> returns and \<open>current_choices\<close> is \<open>c\<close> again, whose keys are the
  group names.
\<close>

theorem sample_set_current_roundtrip:
  assumes "nas_search_groups st = Some gs"
    and "distinct (map fst gs)"
    and "groups_disjoint gs"
    and "nas_arch_params st = Unset"
    and "sample_choices fw kind st = Inr (c, st1)"
  shows "\<exists>st2. set_choices c st1 = Inr st2 \<and> current_choices st2 = Inr c \<and>
           map fst c = map fst gs"
proof -
  from assms(5) obtain r where
    loop: "sample_choices_loop fw kind Unset (nas_store st) gs [] (nas_rng st) = Inr (c, r)"
    and st1: "st1 = st\<lparr>nas_rng := r\<rparr>"
    by (auto simp: sample_choices_def search_groups_def assms(1) assms(4)
        split: sum.splits prod.splits)
  from sample_choices_loop_keys [OF loop] assms(2)
  have keys: "map fst c = map fst gs" and ne: "\<forall>g \<in> set gs. snd g \<noteq> []" by simp_all
  from roundtrip_core [OF keys assms(2) assms(3) ne, of "nas_store st"]
  obtain h' where run: "set_choices_loop c gs (nas_store st) = Inr h'"
    and cur: "choices_loop current_choice h' gs [] = Inr c" by blast
  have "set_choices c st1 = Inr (st1\<lparr>nas_store := h'\<rparr>)"
    by (simp add: set_choices_def search_groups_def st1 assms(1) run)
  moreover have "current_choices (st1\<lparr>nas_store := h'\<rparr>) = Inr c"
    by (simp add: current_choices_def search_groups_def st1 assms(1) cur)
  ultimately show ?thesis using keys by blast
qed

theorem sample_set_current_roundtrip_witness:
  "sample_choices ex_fw ''random'' ex_nas =
     Inr ([(''g0'', 1), (''g1'', 4), (''g2'', 6)], ex_nas\<lparr>nas_rng := 3\<rparr>)
   \<and> (\<exists>st2. set_choices [(''g0'', 1), (''g1'', 4), (''g2'', 6)] (ex_nas\<lparr>nas_rng := 3\<rparr>) = Inr st2
          \<and> current_choices st2 = Inr [(''g0'', 1), (''g1'', 4), (''g2'', 6)])"
proof -
  have s: "sample_choices ex_fw ''random'' ex_nas =
     Inr ([(''g0'', 1), (''g1'', 4), (''g2'', 6)], ex_nas\<lparr>nas_rng := 3\<rparr>)"
    by (simp add: sample_choices_def search_groups_def ex_nas_def ex_groups_def ex_fw_def
        ex_store_def first_item_def setitem_def)
  have g: "nas_search_groups ex_nas = Some ex_groups" "distinct (map fst ex_groups)"
    "groups_disjoint ex_groups" "nas_arch_params ex_nas = Unset"
    by (simp_all add: ex_nas_def ex_groups_def)
  from sample_set_current_roundtrip [OF g s] s show ?thesis by blast
qed

lemma map_of_group_values:
  "distinct (map fst gs) \<Longrightarrow> g \<in> set gs \<Longrightarrow>
   map_of (map (\<lambda>g. (fst g, f g)) gs) (fst g) = Some (f g)"
  by (induction gs) (auto simp: rev_image_eqI)

lemma set_max_choices_loop_as_set_choices:
  assumes "\<forall>g \<in> set all_groups. snd g \<noteq> []"
    and "distinct (map fst all_groups)"
  shows "set gs \<subseteq> set all_groups \<Longrightarrow> \<forall>r. max_choice (h r) = max_choice (h0 r) \<Longrightarrow>
     set_max_choices_loop all_groups gs h =
     set_choices_loop (map (\<lambda>g. (fst g, max_choice (h0 (hd (snd g))))) all_groups) gs h"
proof (induction gs arbitrary: h)
  case Nil
  then show ?case by simp
next
  case (Cons g gs)
  obtain n ms where g: "g = (n, ms)" by (cases g)
  let ?c = "map (\<lambda>g. (fst g, max_choice (h0 (hd (snd g))))) all_groups"
  have d: "choices_loop max_choice h all_groups [] = Inr ?c"
    using choices_loop_distinct [OF assms, of max_choice h] Cons.prems(2) by simp
  from Cons.prems(1) have gin: "(n, ms) \<in> set all_groups" by (simp add: g)
  have look: "map_of ?c n = Some (max_choice (h0 (hd ms)))"
    using map_of_group_values [OF assms(2) gin, of "\<lambda>g. max_choice (h0 (hd (snd g)))"] by simp
  have keep: "\<forall>r. max_choice (assign_choice ms (max_choice (h0 (hd ms))) h r) = max_choice (h0 r)"
    using Cons.prems(2) by (simp add: assign_choice_apply)
  from Cons.prems(1) have sub: "set gs \<subseteq> set all_groups" by simp
  show ?case
    by (simp add: g d getitem_def look Cons.IH [OF sub keep])
qed

lemma set_min_choices_loop_as_set_choices:
  assumes "\<forall>g \<in> set all_groups. snd g \<noteq> []"
    and "distinct (map fst all_groups)"
  shows "set gs \<subseteq> set all_groups \<Longrightarrow> \<forall>r. min_choice (h r) = min_choice (h0 r) \<Longrightarrow>
     set_min_choices_loop all_groups gs h =
     set_choices_loop (map (\<lambda>g. (fst g, min_choice (h0 (hd (snd g))))) all_groups) gs h"
proof (induction gs arbitrary: h)
  case Nil
  then show ?case by simp
next
  case (Cons g gs)
  obtain n ms where g: "g = (n, ms)" by (cases g)
  let ?c = "map (\<lambda>g. (fst g, min_choice (h0 (hd (snd g))))) all_groups"
  have d: "choices_loop min_choice h all_groups [] = Inr ?c"
    using choices_loop_distinct [OF assms, of min_choice h] Cons.prems(2) by simp
  from Cons.prems(1) have gin: "(n, ms) \<in> set all_groups" by (simp add: g)
  have look: "map_of ?c n = Some (min_choice (h0 (hd ms)))"
    using map_of_group_values [OF assms(2) gin, of "\<lambda>g. min_choice (h0 (hd (snd g)))"] by simp
  have keep: "\<forall>r. min_choice (assign_choice ms (min_choice (h0 (hd ms))) h r) = min_choice (h0 r)"
    using Cons.prems(2) by (simp add: assign_choice_apply)
  from Cons.prems(1) have sub: "set gs \<subseteq> set all_groups" by simp
  show ?case
    by (simp add: g d getitem_def look Cons.IH [OF sub keep])
qed

lemma set_choices_loop_only_choice:
  "set_choices_loop choices gs h = Inr h' \<Longrightarrow>
   max_choice (h' r) = max_choice (h r) \<and> min_choice (h' r) = min_choice (h r)"
proof (induction gs arbitrary: h)
  case Nil
  then show ?case by simp
next
  case (Cons g gs)
  then show ?case
    by (fastforce simp: set_choices_loop_step assign_choice_apply split: if_splits option.splits)
qed

text \<open>
  C7. With built search groups (distinct names, no mutable in two groups, every group
  with a first mutable) \<open>set_max_choices\<close> returns, and afterwards \<open>current_choices\<close>
  equals \<open>max_choices\<close> (which \<open>set_max_choices\<close> does not change); the same holds for
  \<open>set_min_choices\<close> and \<open>min_choices\<close>.
\<close>

theorem set_max_min_choices_then_current:
  assumes "nas_search_groups st = Some gs"
    and "distinct (map fst gs)"
    and "groups_disjoint gs"
    and "\<forall>g \<in> set gs. snd g \<noteq> []"
  shows "(\<exists>st' d. set_max_choices st = Inr st' \<and> current_choices st' = Inr d \<and>
            max_choices st' = Inr d \<and> max_choices st = Inr d)
       \<and> (\<exists>st' d. set_min_choices st = Inr st' \<and> current_choices st' = Inr d \<and>
            min_choices st' = Inr d \<and> min_choices st = Inr d)"
proof
  let ?h = "nas_store st"
  let ?c = "map (\<lambda>g. (fst g, max_choice (?h (hd (snd g))))) gs"
  have keys: "map fst ?c = map fst gs" by (simp add: comp_def)
  from roundtrip_core [OF keys assms(2) assms(3) assms(4), of ?h]
  obtain h' where run: "set_choices_loop ?c gs ?h = Inr h'"
    and cur: "choices_loop current_choice h' gs [] = Inr ?c" by blast
  have "set_max_choices_loop gs gs ?h = Inr h'"
    using set_max_choices_loop_as_set_choices [OF assms(4) assms(2), of gs ?h ?h] run by simp
  then have a: "set_max_choices st = Inr (st\<lparr>nas_store := h'\<rparr>)"
    by (simp add: set_max_choices_def search_groups_def assms(1))
  have b: "current_choices (st\<lparr>nas_store := h'\<rparr>) = Inr ?c"
    by (simp add: current_choices_def search_groups_def assms(1) cur)
  have "choices_loop max_choice h' gs [] = Inr ?c"
    using choices_loop_distinct [OF assms(4) assms(2), of max_choice h']
      set_choices_loop_only_choice [OF run] by simp
  then have c: "max_choices (st\<lparr>nas_store := h'\<rparr>) = Inr ?c"
    by (simp add: max_choices_def search_groups_def assms(1))
  have d: "max_choices st = Inr ?c"
    using choices_loop_distinct [OF assms(4) assms(2), of max_choice ?h]
    by (simp add: max_choices_def search_groups_def assms(1))
  from a b c d
  show "\<exists>st' d. set_max_choices st = Inr st' \<and> current_choices st' = Inr d \<and>
            max_choices st' = Inr d \<and> max_choices st = Inr d" by blast
next
  let ?h = "nas_store st"
  let ?c = "map (\<lambda>g. (fst g, min_choice (?h (hd (snd g))))) gs"
  have keys: "map fst ?c = map fst gs" by (simp add: comp_def)
  from roundtrip_core [OF keys assms(2) assms(3) assms(4), of ?h]
  obtain h' where run: "set_choices_loop ?c gs ?h = Inr h'"
    and cur: "choices_loop current_choice h' gs [] = Inr ?c" by blast
  have "set_min_choices_loop gs gs ?h = Inr h'"
    using set_min_choices_loop_as_set_choices [OF assms(4) assms(2), of gs ?h ?h] run by simp
  then have a: "set_min_choices st = Inr (st\<lparr>nas_store := h'\<rparr>)"
    by (simp add: set_min_choices_def search_groups_def assms(1))
  have b: "current_choices (st\<lparr>nas_store := h'\<rparr>) = Inr ?c"
    by (simp add: current_choices_def search_groups_def assms(1) cur)
  have "choices_loop min_choice h' gs [] = Inr ?c"
    using choices_loop_distinct [OF assms(4) assms(2), of min_choice h']
      set_choices_loop_only_choice [OF run] by simp
  then have c: "min_choices (st\<lparr>nas_store := h'\<rparr>) = Inr ?c"
    by (simp add: min_choices_def search_groups_def assms(1))
  have d: "min_choices st = Inr ?c"
    using choices_loop_distinct [OF assms(4) assms(2), of min_choice ?h]
    by (simp add: min_choices_def search_groups_def assms(1))
  from a b c d
  show "\<exists>st' d. set_min_choices st = Inr st' \<and> current_choices st' = Inr d \<and>
            min_choices st' = Inr d \<and> min_choices st = Inr d" by blast
qed

theorem set_max_min_choices_then_current_witness:
  "max_choices ex_nas = Inr [(''g0'', 8), (''g1'', 10), (''g2'', 11)]
   \<and> (\<exists>st'. set_max_choices ex_nas = Inr st' \<and>
          current_choices st' = Inr [(''g0'', 8), (''g1'', 10), (''g2'', 11)])
   \<and> min_choices ex_nas = Inr [(''g0'', 1), (''g1'', 3), (''g2'', 4)]
   \<and> (\<exists>st'. set_min_choices ex_nas = Inr st' \<and>
          current_choices st' = Inr [(''g0'', 1), (''g1'', 3), (''g2'', 4)])"
proof -
  have g: "nas_search_groups ex_nas = Some ex_groups" "distinct (map fst ex_groups)"
    "groups_disjoint ex_groups" "\<forall>g \<in> set ex_groups. snd g \<noteq> []"
    by (simp_all add: ex_nas_def ex_groups_def)
  have mx: "max_choices ex_nas = Inr [(''g0'', 8), (''g1'', 10), (''g2'', 11)]"
    by (simp add: max_choices_def search_groups_def ex_nas_def ex_groups_def ex_store_def
        first_item_def setitem_def)
  have mn: "min_choices ex_nas = Inr [(''g0'', 1), (''g1'', 3), (''g2'', 4)]"
    by (simp add: min_choices_def search_groups_def ex_nas_def ex_groups_def ex_store_def
        first_item_def setitem_def)
  from set_max_min_choices_then_current [OF g] mx mn show ?thesis by fastforce
qed

section \<open>Properties of Autoformer and of fix_choices\<close>

text \<open>
  C4. While \<open>is_supernet\<close> is true, \<open>Autoformer.loss\<close> calls \<open>sample_subnet\<close>, then
  \<open>set_subnet\<close> with the sampled sub-network, and only then the architecture in mode
  \<open>'loss'\<close>, on the state that \<open>set_subnet\<close> left. While it is false, the architecture
  is called in mode \<open>'loss'\<close> on the unchanged state and nothing else is called.
\<close>

theorem loss_samples_then_evaluates:
  "(af_is_supernet st \<longrightarrow>
      (\<exists>subnet st1 st2 result arch.
         sample_subnet fw st = (subnet, st1) \<and> st2 = set_subnet fw subnet st1 \<and>
         forward fw (af_architecture st2) batch_inputs data_samples ''loss'' = (result, arch) \<and>
         loss fw batch_inputs data_samples st =
           (result, st2\<lparr>af_architecture := arch\<rparr>,
            [Call_sample_subnet, Call_set_subnet subnet, Call_architecture ''loss''])))
   \<and> (\<not> af_is_supernet st \<longrightarrow>
      (\<exists>result arch.
         forward fw (af_architecture st) batch_inputs data_samples ''loss'' = (result, arch) \<and>
         loss fw batch_inputs data_samples st =
           (result, st\<lparr>af_architecture := arch\<rparr>, [Call_architecture ''loss''])))"
  by (auto simp: loss_def Let_def split: prod.splits)

theorem loss_samples_then_evaluates_witness:
  "loss ex_af_fw 7 None (ex_af True) =
     (21, \<lparr>af_architecture = 3, af_mutators = [], af_is_supernet = True, af_space = 2\<rparr>,
      [Call_sample_subnet, Call_set_subnet 3, Call_architecture ''loss''])
   \<and> loss ex_af_fw 7 None (ex_af False) =
     (70, \<lparr>af_architecture = 10, af_mutators = [], af_is_supernet = False, af_space = 1\<rparr>,
      [Call_architecture ''loss''])"
  using loss_samples_then_evaluates [of "ex_af True" ex_af_fw 7 None]
    loss_samples_then_evaluates [of "ex_af False" ex_af_fw 7 None]
  by (simp add: ex_af_fw_def ex_af_def)

text \<open>
  C10. With a falsy \<open>fix_subnet\<close> (\<open>None\<close>, an empty path, an empty dict) and a
  \<open>mutators\<close> that is neither \<open>None\<close> nor a dict, \<open>Autoformer.__init__\<close> does not raise
  the TypeError it is about to build: evaluating \<open>type(mutator)\<close> for the message reads
  the unassigned local \<open>mutator\<close> and raises UnboundLocalError.
\<close>

theorem autoformer_init_non_dict_mutators_unbound_local:
  "Autoformer_init fw base (Mutators_other ty) Fix_None = Inl (UnboundLocalError ''mutator'')
   \<and> Autoformer_init fw base (Mutators_other ty) (Fix_path []) = Inl (UnboundLocalError ''mutator'')
   \<and> Autoformer_init fw base (Mutators_other ty) (Fix_dict []) = Inl (UnboundLocalError ''mutator'')"
  by (simp add: Autoformer_init_def read_local_def)

lemma mutable_refs_set: "r \<in> set (mutable_refs ms) \<longleftrightarrow> Mutable_module r \<in> set ms"
  by (induction ms rule: mutable_refs.induct) auto

lemma fix_modules_loop_apply:
  "distinct (mutable_refs ms) \<Longrightarrow>
   fix_modules_loop fw ms h r =
     (if r \<in> set (mutable_refs ms) \<and> \<not> is_fixed (h r)
      then fix_chosen fw (current_choice (h r)) (h r) else h r)"
  by (induction fw ms h rule: fix_modules_loop.induct) auto

lemma sample_choices_loop_dom:
  "sample_choices_loop fw kind ap h gs d r = Inr (d', r') \<Longrightarrow>
   fst ` set d' = fst ` set d \<union> fst ` set gs"
proof (induction gs arbitrary: d r)
  case Nil
  then show ?case by simp
next
  case (Cons g gs)
  obtain n ms where g: "g = (n, ms)" by (cases g)
  from Cons.prems obtain c r1 where
    run: "sample_choices_loop fw kind ap h gs (setitem d n c) r1 = Inr (d', r')"
    by (auto simp: g split: attr.splits sum.splits if_splits prod.splits)
  from Cons.IH [OF run] show ?case
    by (auto simp: g setitem_def dom_update)
qed

text \<open>
  What \<open>fix_choices\<close> does on a mutator that has been given an \<open>architecture\<close>: when
  \<open>sample_choices()\<close> returns \<open>c\<close>, then \<open>c\<close> has exactly the group names as keys,
  \<open>set_choices(c)\<close> returns a state \<open>st2\<close>, and \<open>fix_choices\<close> returns a state in which
  \<open>is_supernet\<close> is \<open>False\<close> and every \<open>BaseMutable\<close> module of the architecture that was
  not fixed in \<open>st2\<close> is the result of \<open>fix_chosen\<close> with its \<open>current_choice\<close>, all other
  objects being as in \<open>st2\<close>. (\<open>modules()\<close> yields every module once.)
\<close>

lemma fix_choices_with_architecture:
  assumes "nas_search_groups st = Some gs"
    and "nas_architecture st = Val modules"
    and "distinct (mutable_refs modules)"
    and "sample_choices fw ''random'' st = Inr (c, st1)"
  shows "\<exists>st2 st'. set_choices c st1 = Inr st2 \<and> fix_choices fw st = Inr st' \<and>
     fst ` set c = fst ` set gs \<and>
     nas_is_supernet st' = Some False \<and>
     (\<forall>r. nas_store st' r =
        (if Mutable_module r \<in> set modules \<and> \<not> is_fixed (nas_store st2 r)
         then fix_chosen fw (current_choice (nas_store st2 r)) (nas_store st2 r)
         else nas_store st2 r))"
proof -
  from assms(4) obtain r where
    loop: "sample_choices_loop fw ''random'' (nas_arch_params st) (nas_store st) gs [] (nas_rng st)
             = Inr (c, r)"
    and st1: "st1 = st\<lparr>nas_rng := r\<rparr>"
    by (auto simp: sample_choices_def search_groups_def assms(1) split: sum.splits prod.splits)
  from sample_choices_loop_dom [OF loop] have keys: "fst ` set c = fst ` set gs" by simp
  have "\<forall>g \<in> set gs. map_of c (fst g) = None \<longrightarrow> snd g \<noteq> []"
    using keys by (metis image_eqI map_of_eq_None_iff)
  then obtain h' where run: "set_choices_loop c gs (nas_store st) = Inr h'"
    using set_choices_loop_total [of gs c "nas_store st"] by blast
  define st2 where "st2 = st1\<lparr>nas_store := h'\<rparr>"
  have setc: "set_choices c st1 = Inr st2"
    by (simp add: set_choices_def search_groups_def st1 assms(1) run st2_def)
  have arch: "nas_architecture st2 = Val modules"
    by (simp add: st2_def st1 assms(2))
  define st' where "st' = st2\<lparr>nas_store := fix_modules_loop fw modules (nas_store st2),
                         nas_is_supernet := Some False\<rparr>"
  have fixc: "fix_choices fw st = Inr st'"
    by (simp add: fix_choices_def assms(4) setc arch st'_def)
  have store: "\<forall>r. nas_store st' r =
        (if Mutable_module r \<in> set modules \<and> \<not> is_fixed (nas_store st2 r)
         then fix_chosen fw (current_choice (nas_store st2 r)) (nas_store st2 r)
         else nas_store st2 r)"
    using assms(3) by (simp add: st'_def fix_modules_loop_apply mutable_refs_set)
  have sup: "nas_is_supernet st' = Some False" by (simp add: st'_def)
  from setc fixc keys sup store show ?thesis by blast
qed

lemma fix_choices_unset_architecture:
  "nas_architecture st = Unset \<Longrightarrow> fix_choices fw st \<noteq> Inr st'"
  by (auto simp: fix_choices_def sample_choices_def set_choices_def
      split: sum.splits prod.splits)

lemma prepare_keeps_architecture:
  "nas_architecture (NasMutator_prepare_from_supernet fw supernet st) = nas_architecture st"
  by (simp add: NasMutator_prepare_from_supernet_def
      NasMutator_prepare_from_predefined_model_def Let_def split: prod.splits)

text \<open>
  C5. \<open>fix_choices\<close> does not collapse the supernet of a mutator that was constructed
  by \<open>NasMutator.__init__\<close> and prepared by \<open>prepare_from_supernet\<close>: neither assigns
  \<open>self.architecture\<close>, so after \<open>set_choices(sample_choices())\<close> the loop header raises
  AttributeError, no \<open>fix_chosen\<close> is called and \<open>is_supernet\<close> is not set. For every
  framework and supernet the call does not return; on the mutator of the concrete run
  the choices are sampled and set and the AttributeError is what is raised.
\<close>

theorem fix_choices_raises_without_architecture:
  "(\<forall>st'. fix_choices fw
            (NasMutator_prepare_from_supernet fw supernet
               (NasMutator_init custom_groups (base\<lparr>nas_architecture := Unset\<rparr>))) \<noteq> Inr st')
   \<and> fix_choices ex_fw
        (NasMutator_prepare_from_supernet ex_fw ()
           (NasMutator_init None (ex_nas\<lparr>nas_architecture := Unset\<rparr>))) =
       Inl (AttributeError ''architecture'')"
proof
  have "nas_architecture
          (NasMutator_prepare_from_supernet fw supernet
             (NasMutator_init custom_groups (base\<lparr>nas_architecture := Unset\<rparr>))) = Unset"
    by (simp add: prepare_keeps_architecture NasMutator_init_def)
  then show "\<forall>st'. fix_choices fw
            (NasMutator_prepare_from_supernet fw supernet
               (NasMutator_init custom_groups (base\<lparr>nas_architecture := Unset\<rparr>))) \<noteq> Inr st'"
    using fix_choices_unset_architecture by blast
next
  show "fix_choices ex_fw
        (NasMutator_prepare_from_supernet ex_fw ()
           (NasMutator_init None (ex_nas\<lparr>nas_architecture := Unset\<rparr>))) =
       Inl (AttributeError ''architecture'')"
    by (simp add: fix_choices_def sample_choices_def set_choices_def search_groups_def
        NasMutator_prepare_from_supernet_def NasMutator_prepare_from_predefined_model_def
        NasMutator_init_def ex_fw_def ex_nas_def ex_store_def first_item_def setitem_def
        str_nat_zero Let_def)
qed

section \<open>Properties of ChannelMutator\<close>

lemma new_units_result:
  "new_units objs h nxt =
     ([nxt..<nxt + length objs],
      (\<lambda>r. if nxt \<le> r \<and> r < nxt + length objs then objs ! (r - nxt) else h r),
      nxt + length objs)"
proof (induction objs arbitrary: h nxt)
  case Nil
  then show ?case by (auto simp: fun_eq_iff)
next
  case (Cons obj objs)
  have "(\<lambda>r. if Suc nxt \<le> r \<and> r < Suc nxt + length objs then objs ! (r - Suc nxt)
              else (h(nxt := obj)) r) =
        (\<lambda>r. if nxt \<le> r \<and> r < nxt + length (obj # objs) then (obj # objs) ! (r - nxt) else h r)"
    by (rule ext) (auto simp: nth_Cons' Suc_diff_le)
  moreover have "[nxt..<nxt + length (obj # objs)] = nxt # [Suc nxt..<Suc nxt + length objs]"
    by (simp add: upt_conv_Cons del: upt_Suc)
  ultimately show ?case
    by (simp add: Cons.IH new_unit_def del: upt_Suc)
qed

lemma convert_as_new_units:
  "convert_channel_unit_to_mutable fw st cus h nxt acc =
     (case new_units
             (map (\<lambda>cu. init_from_channel_unit fw (cm_unit_class st) cu
                      (case map_of (cm_units_cfg st) (channel_unit_name fw cu) of
                         Some ucfg \<Rightarrow>
                           (case init_args ucfg of Some a \<Rightarrow> a | None \<Rightarrow> cm_unit_default_args st)
                       | None \<Rightarrow> cm_unit_default_args st)) cus) h nxt of
        (us, h', nxt') \<Rightarrow> (acc @ us, h', nxt'))"
  by (induction cus arbitrary: h nxt acc) (simp_all add: Let_def new_unit_def split: prod.splits)

lemma cfg_loop_as_new_units:
  "prepare_from_cfg_loop fw model cls default_args config h nxt acc =
     (case new_units
             (map (\<lambda>entry. init_from_cfg fw cls model
                      (entry\<lparr>init_args :=
                         Some (case init_args entry of
                                 Some a \<Rightarrow> dict_update default_args a
                               | None \<Rightarrow> default_args)\<rparr>)) (map snd config)) h nxt of
        (us, h', nxt') \<Rightarrow>
          (map (\<lambda>(k, entry). (k, entry\<lparr>init_args :=
                         Some (case init_args entry of
                                 Some a \<Rightarrow> dict_update default_args a
                               | None \<Rightarrow> default_args)\<rparr>)) config,
           acc @ us, h', nxt'))"
  by (induction config arbitrary: h nxt acc)
     (auto simp: Let_def new_unit_def split: prod.splits)

lemma unit_predefined_loop_popped:
  "map_of default_args ''unit_predefined'' = None \<Longrightarrow>
   unit_predefined_loop units default_args h =
     (default_args,
      (\<lambda>r. if r \<in> set units then (h r)\<lparr>unit_predefined := Cfg_bool False\<rparr> else h r))"
proof (induction units arbitrary: h)
  case Nil
  then show ?case by simp
next
  case (Cons u units)
  have "(\<lambda>r. if r \<in> set units
              then ((h(u := (h u)\<lparr>unit_predefined := Cfg_bool False\<rparr>)) r)\<lparr>unit_predefined := Cfg_bool False\<rparr>
              else (h(u := (h u)\<lparr>unit_predefined := Cfg_bool False\<rparr>)) r) =
        (\<lambda>r. if r \<in> set (u # units) then (h r)\<lparr>unit_predefined := Cfg_bool False\<rparr> else h r)"
    by (rule ext) auto
  with Cons show ?case by (simp add: dict_pop_def)
qed

lemma unit_predefined_loop_store:
  "u \<notin> set units \<Longrightarrow>
   snd (unit_predefined_loop (u # units) default_args h) =
     (\<lambda>r. if r = u
           then (h r)\<lparr>unit_predefined :=
                   (case map_of default_args ''unit_predefined'' of
                      Some v \<Rightarrow> v | None \<Rightarrow> Cfg_bool False)\<rparr>
           else if r \<in> set units then (h r)\<lparr>unit_predefined := Cfg_bool False\<rparr>
           else h r)"
proof -
  assume u: "u \<notin> set units"
  have del: "map_of (AList.delete ''unit_predefined'' default_args) ''unit_predefined'' = None"
    by (simp add: delete_conv')
  show ?thesis
  proof (cases "map_of default_args ''unit_predefined''")
    case None
    then show ?thesis
      using u by (simp add: dict_pop_def unit_predefined_loop_popped) (rule ext, auto)
  next
    case (Some v)
    then show ?thesis
      using u by (simp add: dict_pop_def unit_predefined_loop_popped [OF del]) (rule ext, auto)
  qed
qed

lemma prepare_units_loop_store:
  "distinct units \<Longrightarrow>
   fst (prepare_units_loop fw supernet units h d) r =
     (if r \<in> set units then prepare_for_pruning fw supernet (h r) else h r)"
  by (induction units arbitrary: h d) (auto simp: Let_def)

lemma prepare_units_loop_name2unit:
  "distinct units \<Longrightarrow>
   map_of (snd (prepare_units_loop fw supernet units h d)) n =
     (case filter (\<lambda>v. name (fst (prepare_units_loop fw supernet units h d) v) = n) units of
        [] \<Rightarrow> map_of d n
      | v # vs \<Rightarrow> Some (last (v # vs)))"
proof (induction units arbitrary: h d)
  case Nil
  then show ?case by simp
next
  case (Cons u us)
  define h1 where "h1 = h(u := prepare_for_pruning fw supernet (h u))"
  define d1 where "d1 = setitem d (name (h1 u)) u"
  define hf where "hf = fst (prepare_units_loop fw supernet us h1 d1)"
  have unfold: "prepare_units_loop fw supernet (u # us) h d = prepare_units_loop fw supernet us h1 d1"
    by (simp add: h1_def d1_def Let_def)
  from Cons.prems have dus: "distinct us" and u: "u \<notin> set us" by simp_all
  have hfu: "hf u = h1 u"
    using prepare_units_loop_store [OF dus, of fw supernet h1 d1 u] u by (simp add: hf_def)
  have ih: "map_of (snd (prepare_units_loop fw supernet us h1 d1)) n =
     (case filter (\<lambda>v. name (hf v) = n) us of [] \<Rightarrow> map_of d1 n | v # vs \<Rightarrow> Some (last (v # vs)))"
    unfolding hf_def by (rule Cons.IH [OF dus])
  have d1n: "map_of d1 n = (if n = name (h1 u) then Some u else map_of d n)"
    by (auto simp: d1_def setitem_def update_conv')
  show ?case
    unfolding unfold
    using ih d1n hfu
    by (fold hf_def) (auto split: list.splits)
qed

lemma register_new_units:
  assumes units: "units = [cm_next st..<cm_next st + length objs]"
    and new: "\<And>i. i < length objs \<Longrightarrow> cm_store st1 (cm_next st + i) = objs ! i"
    and old: "\<And>r. r \<notin> set units \<Longrightarrow> cm_store st1 r = cm_store st r"
    and cls: "cm_unit_class st1 = cm_unit_class st"
    and custom: "cm_custom_groups st1 = cm_custom_groups st"
  shows "\<exists>st'.
     (let (h, n2u) = prepare_units_loop fw supernet units (cm_store st1) (cm_name2unit st1);
          st2 = st1\<lparr>cm_store := h, cm_name2unit := n2u, cm_units := units\<rparr>
      in Inr (st2\<lparr>cm_search_groups :=
                Some (build_unit_search_groups fw (mutable_units st2) (cm_unit_class st2)
                        (cm_custom_groups st2))\<rparr>)) =
       (Inr st' :: error + ('a, 'b, 'c, 'd) channel_mutator)
     \<and> units_registered fw supernet st objs st'"
proof -
  obtain h n2u where l: "prepare_units_loop fw supernet units (cm_store st1) (cm_name2unit st1) = (h, n2u)"
    by (cases "prepare_units_loop fw supernet units (cm_store st1) (cm_name2unit st1)")
  have dist: "distinct units" by (simp add: units)
  have h: "h r = (if r \<in> set units then prepare_for_pruning fw supernet (cm_store st1 r)
                  else cm_store st1 r)" for r
    using prepare_units_loop_store [OF dist, of fw supernet "cm_store st1" "cm_name2unit st1" r]
    by (simp add: l)
  have hn: "h (cm_next st + i) = prepare_for_pruning fw supernet (objs ! i)" if "i < length objs" for i
    using that by (simp add: h new units)
  have ho: "h r = cm_store st r" if "r \<notin> set units" for r
    using that by (simp add: h old)
  have n: "map_of n2u (name (h u)) = Some (last (filter (\<lambda>v. name (h v) = name (h u)) units))"
    if "u \<in> set units" for u
  proof -
    from that have "filter (\<lambda>v. name (h v) = name (h u)) units \<noteq> []"
      by (auto simp: filter_empty_conv)
    then show ?thesis
      using prepare_units_loop_name2unit [OF dist, of fw supernet "cm_store st1" "cm_name2unit st1" "name (h u)"]
      by (simp add: l split: list.splits)
  qed
  define st' where "st' = st1\<lparr>cm_store := h, cm_name2unit := n2u, cm_units := units,
     cm_search_groups := Some (build_unit_search_groups fw
        (filter (\<lambda>u. is_mutable (h u)) units) (cm_unit_class st) (cm_custom_groups st))\<rparr>"
  have r: "units_registered fw supernet st objs st'"
    unfolding units_registered_def
    using hn ho n by (simp add: st'_def units [symmetric])
  show ?thesis
    by (rule exI [of _ st']) (simp add: l mutable_units_def cls custom st'_def r [unfolded st'_def])
qed

lemma prepare_from_tracer_result:
  assumes "objs =
     map (\<lambda>cfg. init_from_channel_unit fw (cm_unit_class st)
                  (channel_unit_init_from_cfg fw supernet cfg)
                  (case map_of (cm_units_cfg st)
                          (channel_unit_name fw (channel_unit_init_from_cfg fw supernet cfg)) of
                     Some ucfg \<Rightarrow>
                       (case init_args ucfg of Some a \<Rightarrow> a | None \<Rightarrow> cm_unit_default_args st)
                   | None \<Rightarrow> cm_unit_default_args st))
         (map snd (analyze fw (case pc of Parse_dict d \<Rightarrow> build_tracer fw d
                                | Parse_analyzer tr \<Rightarrow> tr) supernet))"
  shows "prepare_from_tracer fw supernet pc st =
     ([cm_next st..<cm_next st + length objs],
      st\<lparr>cm_store := (\<lambda>r. if cm_next st \<le> r \<and> r < cm_next st + length objs
                           then objs ! (r - cm_next st) else cm_store st r),
         cm_next := cm_next st + length objs\<rparr>)"
  unfolding assms
  by (simp add: prepare_from_tracer_def convert_as_new_units new_units_result Let_def comp_def
      cong: if_cong)

lemma prepare_from_cfg_loop_result:
  assumes "objs =
     map (\<lambda>entry. init_from_cfg fw cls supernet
                    (entry\<lparr>init_args :=
                       Some (case init_args entry of
                               Some a \<Rightarrow> dict_update default_args a
                             | None \<Rightarrow> default_args)\<rparr>)) (map snd config)"
  shows "\<exists>config'. prepare_from_cfg_loop fw supernet cls default_args config h nxt [] =
     (config', [nxt..<nxt + length objs],
      (\<lambda>r. if nxt \<le> r \<and> r < nxt + length objs then objs ! (r - nxt) else h r),
      nxt + length objs)"
  unfolding assms
  by (simp add: cfg_loop_as_new_units new_units_result comp_def cong: if_cong)

lemma predefined_result:
  assumes "objs =
     (case units_from_predefined_model fw (cm_unit_class st) supernet of
        [] \<Rightarrow> []
      | obj # rest \<Rightarrow>
          obj\<lparr>unit_predefined :=
                (case map_of (cm_unit_default_args st) ''unit_predefined'' of
                   Some v \<Rightarrow> v | None \<Rightarrow> Cfg_bool False)\<rparr>
          # map (\<lambda>obj. obj\<lparr>unit_predefined := Cfg_bool False\<rparr>) rest)"
  shows "\<exists>st1. ChannelMutator_prepare_from_predefined_model fw supernet st =
            ([cm_next st..<cm_next st + length objs], st1) \<and>
          (\<forall>i < length objs. cm_store st1 (cm_next st + i) = objs ! i) \<and>
          (\<forall>r. r \<notin> set [cm_next st..<cm_next st + length objs] \<longrightarrow> cm_store st1 r = cm_store st r) \<and>
          cm_unit_class st1 = cm_unit_class st \<and> cm_custom_groups st1 = cm_custom_groups st \<and>
          cm_name2unit st1 = cm_name2unit st"
proof (cases "units_from_predefined_model fw (cm_unit_class st) supernet")
  case Nil
  then show ?thesis
    by (simp add: ChannelMutator_prepare_from_predefined_model_def assms Let_def)
next
  case (Cons obj rest)
  let ?n = "cm_next st"
  let ?h = "\<lambda>r. if ?n \<le> r \<and> r < ?n + length (obj # rest) then (obj # rest) ! (r - ?n)
                 else cm_store st r"
  have len: "length objs = Suc (length rest)" by (simp add: assms Cons)
  have upt: "[?n..<?n + length (obj # rest)] = ?n # [Suc ?n..<?n + length (obj # rest)]"
    by (rule upt_conv_Cons) simp
  have notin: "?n \<notin> set [Suc ?n..<?n + length (obj # rest)]"
    by (simp del: upt_Suc)
  obtain da h' where loop:
    "unit_predefined_loop (?n # [Suc ?n..<?n + length (obj # rest)]) (cm_unit_default_args st) ?h = (da, h')"
    by (cases "unit_predefined_loop (?n # [Suc ?n..<?n + length (obj # rest)]) (cm_unit_default_args st) ?h")
  from unit_predefined_loop_store [OF notin, of "cm_unit_default_args st" ?h] loop
  have h': "h' = (\<lambda>r. if r = ?n
           then (?h r)\<lparr>unit_predefined :=
                   (case map_of (cm_unit_default_args st) ''unit_predefined'' of
                      Some v \<Rightarrow> v | None \<Rightarrow> Cfg_bool False)\<rparr>
           else if r \<in> set [Suc ?n..<?n + length (obj # rest)]
                then (?h r)\<lparr>unit_predefined := Cfg_bool False\<rparr>
           else ?h r)"
    by simp
  have new: "\<forall>i < length objs. h' (?n + i) = objs ! i"
  proof (intro allI impI)
    fix i assume i: "i < length objs"
    show "h' (?n + i) = objs ! i"
    proof (cases i)
      case 0
      then show ?thesis by (simp add: h' assms Cons del: upt_Suc)
    next
      case (Suc j)
      with i len have "j < length rest" by simp
      then show ?thesis by (simp add: h' assms Cons Suc del: upt_Suc)
    qed
  qed
  have old: "\<forall>r. r \<notin> set [?n..<?n + length objs] \<longrightarrow> h' r = cm_store st r"
    by (auto simp: h' len simp del: upt_Suc)
  have nu: "new_units (units_from_predefined_model fw (cm_unit_class st) supernet) (cm_store st) ?n =
      (?n # [Suc ?n..<?n + length (obj # rest)], ?h, ?n + length (obj # rest))"
    unfolding Cons new_units_result upt [symmetric] by (rule refl)
  define st1 where "st1 = st\<lparr>cm_channel_unit_cfg :=
            (case cm_channel_unit_cfg st of
               Unit_class cls \<Rightarrow> Unit_class cls
             | Unit_cfg d \<Rightarrow>
                 (case cfg_default_args d of
                    None \<Rightarrow> Unit_cfg d
                  | Some a \<Rightarrow> Unit_cfg (d\<lparr>cfg_default_args := Some da\<rparr>))),
          cm_unit_default_args := da, cm_store := h', cm_next := ?n + length (obj # rest)\<rparr>"
  have res: "ChannelMutator_prepare_from_predefined_model fw supernet st =
      (?n # [Suc ?n..<?n + length (obj # rest)], st1)"
    unfolding ChannelMutator_prepare_from_predefined_model_def Let_def nu prod.case loop st1_def
    by (rule refl)
  have range: "?n # [Suc ?n..<?n + length (obj # rest)] = [?n..<?n + length objs]"
    unfolding upt [symmetric] len by simp
  have "cm_store st1 = h'" "cm_unit_class st1 = cm_unit_class st"
    "cm_custom_groups st1 = cm_custom_groups st" "cm_name2unit st1 = cm_name2unit st"
    by (simp_all add: st1_def)
  with new old res range show ?thesis by metis
qed

text \<open>
  C1. \<open>ChannelMutator.prepare_from_supernet\<close> discovers the units according to
  \<open>parse_cfg\<close> and registers them (\<open>units_registered\<close>: they become \<open>self.units\<close>, each
  has had \<open>prepare_for_pruning\<close> and is recorded under its name, and the search groups
  are built from exactly the mutable ones).
  \<^item> When \<open>parse_cfg\<close> is a \<open>ChannelAnalyzer\<close>, or a dict whose \<open>'type'\<close> contains
    \<open>'Analyzer'\<close> (the tracer is then built from the dict): one unit for every unit
    config that the tracer's \<open>analyze\<close> returns, made by \<open>init_from_channel_unit\<close> from
    the \<open>ChannelUnit\<close> of that config, with the init args of the unit's entry in
    \<open>units_cfg\<close> or else the default args.
  \<^item> When the type is \<open>'Config'\<close>: one unit for every entry of
    \<open>channel_unit_cfg['units']\<close> (loaded from the file when it is a path), made by
    \<open>init_from_cfg\<close> from the entry with the default args updated by the entry's init
    args; an AssertionError when \<open>channel_unit_cfg\<close> is no dict or has no \<open>'units'\<close>.
  \<^item> When the type is \<open>'Predefined'\<close>: the units of \<open>init_from_predefined_model\<close>, the
    first with \<open>unit_predefined\<close> from the default args, the others with \<open>False\<close>.
  \<^item> For any other type string: NotImplementedError.
\<close>

theorem prepare_from_supernet_discovers_and_registers:
  "(let P = ChannelMutator_prepare_from_supernet fw supernet st;
        cls = cm_unit_class st;
        default_args = cm_unit_default_args st;
        traced = (\<lambda>tracer.
          map (\<lambda>cfg. init_from_channel_unit fw cls (channel_unit_init_from_cfg fw supernet cfg)
                 (case map_of (cm_units_cfg st)
                         (channel_unit_name fw (channel_unit_init_from_cfg fw supernet cfg)) of
                    Some ucfg \<Rightarrow> (case init_args ucfg of Some a \<Rightarrow> a | None \<Rightarrow> default_args)
                  | None \<Rightarrow> default_args))
            (map snd (analyze fw tracer supernet)));
        configured = (\<lambda>config.
          map (\<lambda>entry. init_from_cfg fw cls supernet
                 (entry\<lparr>init_args :=
                    Some (case init_args entry of
                            Some a \<Rightarrow> dict_update default_args a
                          | None \<Rightarrow> default_args)\<rparr>))
            (map snd config));
        predefined =
          (case units_from_predefined_model fw cls supernet of
             [] \<Rightarrow> []
           | obj # rest \<Rightarrow>
               obj\<lparr>unit_predefined :=
                     (case map_of default_args ''unit_predefined'' of
                        Some v \<Rightarrow> v | None \<Rightarrow> Cfg_bool False)\<rparr>
               # map (\<lambda>obj. obj\<lparr>unit_predefined := Cfg_bool False\<rparr>) rest)
    in (\<forall>tr. cm_parse_cfg st = Parse_analyzer tr \<longrightarrow>
          (\<exists>st'. P = Inr st' \<and> units_registered fw supernet st (traced tr) st'))
     \<and> (\<forall>d t. cm_parse_cfg st = Parse_dict d \<and> map_of d ''type'' = Some (Cfg_str t) \<and>
            contains ''Analyzer'' t \<longrightarrow>
          (\<exists>st'. P = Inr st' \<and> units_registered fw supernet st (traced (build_tracer fw d)) st'))
     \<and> (\<forall>d. cm_parse_cfg st = Parse_dict d \<and> map_of d ''type'' = Some (Cfg_str ''Config'') \<longrightarrow>
          (\<forall>c. cm_channel_unit_cfg st = Unit_class c \<longrightarrow> P = Inl (AssertionError []))
          \<and> (\<forall>c. cm_channel_unit_cfg st = Unit_cfg c \<and> cfg_units c = None \<longrightarrow>
                P = Inl (AssertionError []))
          \<and> (\<forall>c u. cm_channel_unit_cfg st = Unit_cfg c \<and> cfg_units c = Some (Units_dict u) \<longrightarrow>
                (\<exists>st'. P = Inr st' \<and> units_registered fw supernet st (configured u) st'))
          \<and> (\<forall>c f. cm_channel_unit_cfg st = Unit_cfg c \<and> cfg_units c = Some (Units_path f) \<longrightarrow>
                (\<exists>st'. P = Inr st' \<and>
                   units_registered fw supernet st (configured (load fw f)) st')))
     \<and> (\<forall>d. cm_parse_cfg st = Parse_dict d \<and> map_of d ''type'' = Some (Cfg_str ''Predefined'') \<longrightarrow>
          (\<exists>st'. P = Inr st' \<and> units_registered fw supernet st predefined st'))
     \<and> (\<forall>d t. cm_parse_cfg st = Parse_dict d \<and> map_of d ''type'' = Some (Cfg_str t) \<and>
            \<not> contains ''Analyzer'' t \<and> t \<noteq> ''Config'' \<and> t \<noteq> ''Predefined'' \<longrightarrow>
          P = Inl NotImplementedError))"
proof -
  define st0 where "st0 = st\<lparr>cm_name2module := Some (named_modules fw supernet)\<rparr>"
  have st0: "cm_next st0 = cm_next st" "cm_store st0 = cm_store st"
    "cm_unit_class st0 = cm_unit_class st" "cm_custom_groups st0 = cm_custom_groups st"
    "cm_units_cfg st0 = cm_units_cfg st" "cm_unit_default_args st0 = cm_unit_default_args st"
    "cm_channel_unit_cfg st0 = cm_channel_unit_cfg st" "cm_parse_cfg st0 = cm_parse_cfg st"
    by (simp_all add: st0_def)
  let ?P = "ChannelMutator_prepare_from_supernet fw supernet st"
  let ?fin = "\<lambda>units st1.
     (let (h, n2u) = prepare_units_loop fw supernet units (cm_store st1) (cm_name2unit st1);
          st2 = st1\<lparr>cm_store := h, cm_name2unit := n2u, cm_units := units\<rparr>
      in Inr (st2\<lparr>cm_search_groups :=
                Some (build_unit_search_groups fw (mutable_units st2) (cm_unit_class st2)
                        (cm_custom_groups st2))\<rparr>)) :: error + ('a, 'b, 'c, 'd) channel_mutator"
  txt \<open>the tracer\<close>
  let ?traced = "\<lambda>tracer.
          map (\<lambda>cfg. init_from_channel_unit fw (cm_unit_class st)
                 (channel_unit_init_from_cfg fw supernet cfg)
                 (case map_of (cm_units_cfg st)
                         (channel_unit_name fw (channel_unit_init_from_cfg fw supernet cfg)) of
                    Some ucfg \<Rightarrow>
                      (case init_args ucfg of Some a \<Rightarrow> a | None \<Rightarrow> cm_unit_default_args st)
                  | None \<Rightarrow> cm_unit_default_args st))
            (map snd (analyze fw tracer supernet))"
  have tracer: "\<exists>st'. ?fin (fst (prepare_from_tracer fw supernet pc st0))
                        (snd (prepare_from_tracer fw supernet pc st0)) = Inr st' \<and>
      units_registered fw supernet st
        (?traced (case pc of Parse_dict d \<Rightarrow> build_tracer fw d | Parse_analyzer tr \<Rightarrow> tr)) st'" for pc
  proof -
    let ?objs = "?traced (case pc of Parse_dict d \<Rightarrow> build_tracer fw d | Parse_analyzer tr \<Rightarrow> tr)"
    have r: "prepare_from_tracer fw supernet pc st0 =
       ([cm_next st..<cm_next st + length ?objs],
        st0\<lparr>cm_store := (\<lambda>r. if cm_next st \<le> r \<and> r < cm_next st + length ?objs
                           then ?objs ! (r - cm_next st) else cm_store st r),
           cm_next := cm_next st + length ?objs\<rparr>)"
      using prepare_from_tracer_result [of ?objs fw st0 supernet pc] by (simp only: st0)
    show ?thesis
      unfolding r fst_conv snd_conv
      by (rule register_new_units) (auto simp: st0 simp del: upt_Suc)
  qed
  have a: "\<forall>tr. cm_parse_cfg st = Parse_analyzer tr \<longrightarrow>
          (\<exists>st'. ?P = Inr st' \<and> units_registered fw supernet st (?traced tr) st')"
  proof (intro allI impI)
    fix tr assume h: "cm_parse_cfg st = Parse_analyzer tr"
    have "?P = ?fin (fst (prepare_from_tracer fw supernet (Parse_analyzer tr) st0))
                    (snd (prepare_from_tracer fw supernet (Parse_analyzer tr) st0))"
      by (simp add: ChannelMutator_prepare_from_supernet_def h st0_def [symmetric] st0
          split: prod.splits)
    with tracer [of "Parse_analyzer tr"]
    show "\<exists>st'. ?P = Inr st' \<and> units_registered fw supernet st (?traced tr) st'" by simp
  qed
  have b: "\<forall>d t. cm_parse_cfg st = Parse_dict d \<and> map_of d ''type'' = Some (Cfg_str t) \<and>
            contains ''Analyzer'' t \<longrightarrow>
          (\<exists>st'. ?P = Inr st' \<and> units_registered fw supernet st (?traced (build_tracer fw d)) st')"
  proof (intro allI impI)
    fix d t assume h: "cm_parse_cfg st = Parse_dict d \<and> map_of d ''type'' = Some (Cfg_str t) \<and>
            contains ''Analyzer'' t"
    then have "?P = ?fin (fst (prepare_from_tracer fw supernet (Parse_dict d) st0))
                    (snd (prepare_from_tracer fw supernet (Parse_dict d) st0))"
      by (simp add: ChannelMutator_prepare_from_supernet_def st0_def [symmetric] st0 getitem_def
          split: prod.splits)
    with tracer [of "Parse_dict d"]
    show "\<exists>st'. ?P = Inr st' \<and> units_registered fw supernet st (?traced (build_tracer fw d)) st'"
      by simp
  qed
  txt \<open>the config\<close>
  let ?configured = "\<lambda>config.
          map (\<lambda>entry. init_from_cfg fw (cm_unit_class st) supernet
                 (entry\<lparr>init_args :=
                    Some (case init_args entry of
                            Some a \<Rightarrow> dict_update (cm_unit_default_args st) a
                          | None \<Rightarrow> cm_unit_default_args st)\<rparr>))
            (map snd config)"
  have nonconf: "\<not> contains ''Analyzer'' ''Config''" "\<not> contains ''Analyzer'' ''Predefined''"
    by simp_all
  have conf: "?P = (case prepare_from_cfg fw supernet (cm_units_cfg st0) st0 of
                      Inl e \<Rightarrow> Inl e | Inr (units, st1) \<Rightarrow> ?fin units st1)"
    if "cm_parse_cfg st = Parse_dict d" "map_of d ''type'' = Some (Cfg_str ''Config'')" for d
    using that nonconf
    by (simp add: ChannelMutator_prepare_from_supernet_def st0_def [symmetric] st0 getitem_def)
  have loop: "\<exists>st'. (case prepare_from_cfg_loop fw supernet (cm_unit_class st)
                         (cm_unit_default_args st) config (cm_store st) (cm_next st) [] of
                 (config', units, h, nxt) \<Rightarrow> ?fin units (mk config' h nxt))
               = Inr st' \<and> units_registered fw supernet st (?configured config) st'"
    if upd: "\<And>c h n. cm_store (mk c h n) = h \<and> cm_unit_class (mk c h n) = cm_unit_class st \<and>
                   cm_custom_groups (mk c h n) = cm_custom_groups st" for config mk
  proof -
    let ?objs = "?configured config"
    from prepare_from_cfg_loop_result [of ?objs fw "cm_unit_class st" supernet
        "cm_unit_default_args st" config "cm_store st" "cm_next st"]
    obtain config' where r: "prepare_from_cfg_loop fw supernet (cm_unit_class st)
        (cm_unit_default_args st) config (cm_store st) (cm_next st) [] =
       (config', [cm_next st..<cm_next st + length ?objs],
        (\<lambda>r. if cm_next st \<le> r \<and> r < cm_next st + length ?objs
              then ?objs ! (r - cm_next st) else cm_store st r),
        cm_next st + length ?objs)" by blast
    show ?thesis
      unfolding r prod.case
      by (rule register_new_units) (auto simp: st0 upd simp del: upt_Suc)
  qed
  have c: "\<forall>d. cm_parse_cfg st = Parse_dict d \<and> map_of d ''type'' = Some (Cfg_str ''Config'') \<longrightarrow>
          (\<forall>c. cm_channel_unit_cfg st = Unit_class c \<longrightarrow> ?P = Inl (AssertionError []))
          \<and> (\<forall>c. cm_channel_unit_cfg st = Unit_cfg c \<and> cfg_units c = None \<longrightarrow>
                ?P = Inl (AssertionError []))
          \<and> (\<forall>c u. cm_channel_unit_cfg st = Unit_cfg c \<and> cfg_units c = Some (Units_dict u) \<longrightarrow>
                (\<exists>st'. ?P = Inr st' \<and> units_registered fw supernet st (?configured u) st'))
          \<and> (\<forall>c f. cm_channel_unit_cfg st = Unit_cfg c \<and> cfg_units c = Some (Units_path f) \<longrightarrow>
                (\<exists>st'. ?P = Inr st' \<and>
                   units_registered fw supernet st (?configured (load fw f)) st'))"
  proof (intro allI impI conjI)
    fix d c assume h: "cm_parse_cfg st = Parse_dict d \<and> map_of d ''type'' = Some (Cfg_str ''Config'')"
      and u: "cm_channel_unit_cfg st = Unit_class c"
    from h u show "?P = Inl (AssertionError [])"
      by (simp add: conf [of d] prepare_from_cfg_def st0)
  next
    fix d c assume h: "cm_parse_cfg st = Parse_dict d \<and> map_of d ''type'' = Some (Cfg_str ''Config'')"
      and u: "cm_channel_unit_cfg st = Unit_cfg c \<and> cfg_units c = None"
    from h u show "?P = Inl (AssertionError [])"
      by (simp add: conf [of d] prepare_from_cfg_def st0)
  next
    fix d c u assume h: "cm_parse_cfg st = Parse_dict d \<and> map_of d ''type'' = Some (Cfg_str ''Config'')"
      and u: "cm_channel_unit_cfg st = Unit_cfg c \<and> cfg_units c = Some (Units_dict u)"
    from h u have "?P = (case prepare_from_cfg_loop fw supernet (cm_unit_class st)
                         (cm_unit_default_args st) u (cm_store st) (cm_next st) [] of
                 (config', units, h, nxt) \<Rightarrow>
                   ?fin units ((\<lambda>cf h n. st0\<lparr>cm_channel_unit_cfg :=
                                   Unit_cfg (c\<lparr>cfg_units := Some (Units_dict cf)\<rparr>),
                                 cm_units_cfg := cf, cm_store := h, cm_next := n\<rparr>) config' h nxt))"
      by (simp add: conf [of d] prepare_from_cfg_def st0 Let_def split: prod.splits)
    with loop [of "\<lambda>cf h n. st0\<lparr>cm_channel_unit_cfg := Unit_cfg (c\<lparr>cfg_units := Some (Units_dict cf)\<rparr>),
                                 cm_units_cfg := cf, cm_store := h, cm_next := n\<rparr>" u]
    show "\<exists>st'. ?P = Inr st' \<and> units_registered fw supernet st (?configured u) st'"
      by (simp add: st0)
  next
    fix d c f assume h: "cm_parse_cfg st = Parse_dict d \<and> map_of d ''type'' = Some (Cfg_str ''Config'')"
      and u: "cm_channel_unit_cfg st = Unit_cfg c \<and> cfg_units c = Some (Units_path f)"
    from h u have "?P = (case prepare_from_cfg_loop fw supernet (cm_unit_class st)
                         (cm_unit_default_args st) (load fw f) (cm_store st) (cm_next st) [] of
                 (config', units, h, nxt) \<Rightarrow>
                   ?fin units ((\<lambda>cf h n. st0\<lparr>cm_store := h, cm_next := n\<rparr>) config' h nxt))"
      by (simp add: conf [of d] prepare_from_cfg_def st0 Let_def split: prod.splits)
    with loop [of "\<lambda>cf h n. st0\<lparr>cm_store := h, cm_next := n\<rparr>" "load fw f"]
    show "\<exists>st'. ?P = Inr st' \<and> units_registered fw supernet st (?configured (load fw f)) st'"
      by (simp add: st0)
  qed
  txt \<open>the pre-defined model\<close>
  let ?predefined = "case units_from_predefined_model fw (cm_unit_class st) supernet of
             [] \<Rightarrow> []
           | obj # rest \<Rightarrow>
               obj\<lparr>unit_predefined :=
                     (case map_of (cm_unit_default_args st) ''unit_predefined'' of
                        Some v \<Rightarrow> v | None \<Rightarrow> Cfg_bool False)\<rparr>
               # map (\<lambda>obj. obj\<lparr>unit_predefined := Cfg_bool False\<rparr>) rest"
  have d: "\<forall>d. cm_parse_cfg st = Parse_dict d \<and> map_of d ''type'' = Some (Cfg_str ''Predefined'') \<longrightarrow>
          (\<exists>st'. ?P = Inr st' \<and> units_registered fw supernet st ?predefined st')"
  proof (intro allI impI)
    fix d assume h: "cm_parse_cfg st = Parse_dict d \<and> map_of d ''type'' = Some (Cfg_str ''Predefined'')"
    from predefined_result [where objs = ?predefined and fw = fw and st = st0 and supernet = supernet]
    obtain st1 where r: "ChannelMutator_prepare_from_predefined_model fw supernet st0 =
            ([cm_next st..<cm_next st + length ?predefined], st1)"
      and new: "\<forall>i < length ?predefined. cm_store st1 (cm_next st + i) = ?predefined ! i"
      and old: "\<forall>r. r \<notin> set [cm_next st..<cm_next st + length ?predefined] \<longrightarrow>
                  cm_store st1 r = cm_store st r"
      and rest: "cm_unit_class st1 = cm_unit_class st" "cm_custom_groups st1 = cm_custom_groups st"
      unfolding st0 by blast
    from h nonconf have "?P = ?fin [cm_next st..<cm_next st + length ?predefined] st1"
      by (simp add: ChannelMutator_prepare_from_supernet_def st0_def [symmetric] st0 getitem_def r
          del: upt_Suc)
    moreover have "\<exists>st'. ?fin [cm_next st..<cm_next st + length ?predefined] st1 = Inr st' \<and>
        units_registered fw supernet st ?predefined st'"
      by (rule register_new_units) (use new old rest in simp_all)
    ultimately show "\<exists>st'. ?P = Inr st' \<and> units_registered fw supernet st ?predefined st'"
      by simp
  qed
  have e: "\<forall>d t. cm_parse_cfg st = Parse_dict d \<and> map_of d ''type'' = Some (Cfg_str t) \<and>
            \<not> contains ''Analyzer'' t \<and> t \<noteq> ''Config'' \<and> t \<noteq> ''Predefined'' \<longrightarrow>
          ?P = Inl NotImplementedError"
    by (auto simp: ChannelMutator_prepare_from_supernet_def getitem_def)
  from a b c d e show ?thesis unfolding Let_def by blast
qed

lemma units_registered_two:
  assumes "units_registered fw supernet st [a, b] st'" and "cm_next st = 2"
  shows "cm_units st' = [2, 3]"
    and "cm_store st' 2 = prepare_for_pruning fw supernet a"
    and "cm_store st' 3 = prepare_for_pruning fw supernet b"
    and "map_of (cm_name2unit st') (name (cm_store st' 3)) =
           Some (last (filter (\<lambda>v. name (cm_store st' v) = name (cm_store st' 3)) [2, 3]))"
    and "cm_search_groups st' =
           Some (build_unit_search_groups fw (filter (\<lambda>u. is_mutable (cm_store st' u)) [2, 3])
                   (cm_unit_class st) (cm_custom_groups st))"
proof -
  have u: "[2..<4] = [2, 3::nat]" by (simp add: upt_rec)
  from assms show units: "cm_units st' = [2, 3]"
    by (simp add: units_registered_def u)
  from assms have "\<forall>i < 2. cm_store st' (2 + i) = prepare_for_pruning fw supernet ([a, b] ! i)"
    by (simp add: units_registered_def)
  from this [rule_format, of 0] this [rule_format, of 1]
  show "cm_store st' 2 = prepare_for_pruning fw supernet a"
    and "cm_store st' 3 = prepare_for_pruning fw supernet b"
    by simp_all
  from assms have "\<forall>u \<in> set (cm_units st').
        map_of (cm_name2unit st') (name (cm_store st' u)) =
          Some (last (filter (\<lambda>v. name (cm_store st' v) = name (cm_store st' u)) (cm_units st')))"
    unfolding units_registered_def by blast
  then show "map_of (cm_name2unit st') (name (cm_store st' 3)) =
           Some (last (filter (\<lambda>v. name (cm_store st' v) = name (cm_store st' 3)) [2, 3]))"
    unfolding units by simp
  from assms show "cm_search_groups st' =
           Some (build_unit_search_groups fw (filter (\<lambda>u. is_mutable (cm_store st' u)) [2, 3])
                   (cm_unit_class st) (cm_custom_groups st))"
    unfolding units_registered_def units [symmetric] by blast
qed

lemma str_nat_two: "str_nat 2 = ''2''"
  by code_simp

theorem prepare_from_supernet_discovers_and_registers_witness:
  "(\<exists>st'. ChannelMutator_prepare_from_supernet ex_cm_fw () (ex_cm ''Predefined'') = Inr st' \<and>
      cm_units st' = [2, 3] \<and>
      cm_store st' 2 = (ex_unit ''conv0'' True)\<lparr>unit_predefined := Cfg_bool True, current_choice := 8\<rparr> \<and>
      cm_store st' 3 = (ex_unit ''conv1'' False)\<lparr>unit_predefined := Cfg_bool False, current_choice := 8\<rparr> \<and>
      map_of (cm_name2unit st') ''conv1'' = Some 3 \<and>
      cm_search_groups st' = Some [(''2'', [2])])
   \<and> (\<exists>st'. ChannelMutator_prepare_from_supernet ex_cm_fw () (ex_cm ''ChannelAnalyzer'') = Inr st' \<and>
      cm_units st' = [2, 3] \<and>
      cm_store st' 2 = (ex_unit ''conv0'' True)\<lparr>current_choice := 8\<rparr> \<and>
      cm_store st' 3 = (ex_unit ''conv1'' False)\<lparr>current_choice := 8\<rparr> \<and>
      cm_search_groups st' = Some [(''2'', [2])])
   \<and> ChannelMutator_prepare_from_supernet ex_cm_fw () (ex_cm ''Foo'') = Inl NotImplementedError"
proof -
  note main = prepare_from_supernet_discovers_and_registers [of ex_cm_fw "()", unfolded Let_def]
  txt \<open>the pre-defined model\<close>
  have p: "cm_parse_cfg (ex_cm ''Predefined'') = Parse_dict [(''type'', Cfg_str ''Predefined'')] \<and>
      map_of [(''type'', Cfg_str ''Predefined'')] ''type'' = Some (Cfg_str ''Predefined'')"
    by (simp add: ex_cm_def)
  have po: "(case units_from_predefined_model ex_cm_fw (cm_unit_class (ex_cm ''Predefined'')) () of
             [] \<Rightarrow> []
           | obj # rest \<Rightarrow>
               obj\<lparr>unit_predefined :=
                     (case map_of (cm_unit_default_args (ex_cm ''Predefined'')) ''unit_predefined'' of
                        Some v \<Rightarrow> v | None \<Rightarrow> Cfg_bool False)\<rparr>
               # map (\<lambda>obj. obj\<lparr>unit_predefined := Cfg_bool False\<rparr>) rest) =
        [(ex_unit ''conv0'' True)\<lparr>unit_predefined := Cfg_bool True\<rparr>,
         (ex_unit ''conv1'' False)\<lparr>unit_predefined := Cfg_bool False\<rparr>]"
    by (simp add: ex_cm_fw_def ex_cm_def)
  from main [of "ex_cm ''Predefined''"] p
  obtain s1 where r1: "ChannelMutator_prepare_from_supernet ex_cm_fw () (ex_cm ''Predefined'') = Inr s1"
    and reg1: "units_registered ex_cm_fw () (ex_cm ''Predefined'')
        [(ex_unit ''conv0'' True)\<lparr>unit_predefined := Cfg_bool True\<rparr>,
         (ex_unit ''conv1'' False)\<lparr>unit_predefined := Cfg_bool False\<rparr>] s1"
    unfolding po by blast
  have n: "cm_next (ex_cm t) = 2" for t by (simp add: ex_cm_def)
  note f1 = units_registered_two [OF reg1 n]
  have s12: "cm_store s1 2 = (ex_unit ''conv0'' True)\<lparr>unit_predefined := Cfg_bool True, current_choice := 8\<rparr>"
    and s13: "cm_store s1 3 = (ex_unit ''conv1'' False)\<lparr>unit_predefined := Cfg_bool False, current_choice := 8\<rparr>"
    by (simp_all add: f1 ex_cm_fw_def ex_unit_def)
  have n1: "map_of (cm_name2unit s1) ''conv1'' = Some 3"
    using f1(4) by (simp add: s12 s13 ex_unit_def)
  have g1: "cm_search_groups s1 = Some [(''2'', [2])]"
    using f1(5) by (simp add: s12 s13 ex_unit_def ex_cm_fw_def str_nat_two)
  txt \<open>the tracer\<close>
  have q: "cm_parse_cfg (ex_cm ''ChannelAnalyzer'') = Parse_dict [(''type'', Cfg_str ''ChannelAnalyzer'')] \<and>
      map_of [(''type'', Cfg_str ''ChannelAnalyzer'')] ''type'' = Some (Cfg_str ''ChannelAnalyzer'') \<and>
      contains ''Analyzer'' ''ChannelAnalyzer''"
    by (simp add: ex_cm_def)
  have qo: "map (\<lambda>cfg. init_from_channel_unit ex_cm_fw (cm_unit_class (ex_cm ''ChannelAnalyzer''))
                 (channel_unit_init_from_cfg ex_cm_fw () cfg)
                 (case map_of (cm_units_cfg (ex_cm ''ChannelAnalyzer''))
                         (channel_unit_name ex_cm_fw (channel_unit_init_from_cfg ex_cm_fw () cfg)) of
                    Some ucfg \<Rightarrow>
                      (case init_args ucfg of Some a \<Rightarrow> a
                       | None \<Rightarrow> cm_unit_default_args (ex_cm ''ChannelAnalyzer''))
                  | None \<Rightarrow> cm_unit_default_args (ex_cm ''ChannelAnalyzer'')))
            (map snd (analyze ex_cm_fw tracer ())) =
        [ex_unit ''conv0'' True, ex_unit ''conv1'' False]" for tracer
    by (simp add: ex_cm_fw_def ex_cm_def)
  from main [of "ex_cm ''ChannelAnalyzer''"] q
  obtain s2 where r2: "ChannelMutator_prepare_from_supernet ex_cm_fw () (ex_cm ''ChannelAnalyzer'') = Inr s2"
    and reg2: "units_registered ex_cm_fw () (ex_cm ''ChannelAnalyzer'')
        [ex_unit ''conv0'' True, ex_unit ''conv1'' False] s2"
    unfolding qo by blast
  note f2 = units_registered_two [OF reg2 n]
  have s22: "cm_store s2 2 = (ex_unit ''conv0'' True)\<lparr>current_choice := 8\<rparr>"
    and s23: "cm_store s2 3 = (ex_unit ''conv1'' False)\<lparr>current_choice := 8\<rparr>"
    by (simp_all add: f2 ex_cm_fw_def ex_unit_def)
  have g2: "cm_search_groups s2 = Some [(''2'', [2])]"
    using f2(5) by (simp add: s22 s23 ex_unit_def ex_cm_fw_def str_nat_two)
  txt \<open>another type\<close>
  have o: "cm_parse_cfg (ex_cm ''Foo'') = Parse_dict [(''type'', Cfg_str ''Foo'')] \<and>
      map_of [(''type'', Cfg_str ''Foo'')] ''type'' = Some (Cfg_str ''Foo'') \<and>
      \<not> contains ''Analyzer'' ''Foo'' \<and> ''Foo'' \<noteq> ''Config'' \<and> ''Foo'' \<noteq> ''Predefined''"
    by (simp add: ex_cm_def)
  from main [of "ex_cm ''Foo''"] o
  have foo: "ChannelMutator_prepare_from_supernet ex_cm_fw () (ex_cm ''Foo'') = Inl NotImplementedError"
    by blast
  from r1 f1(1) s12 s13 n1 g1 r2 f2(1) s22 s23 g2 foo show ?thesis by blast
qed

section \<open>Search groups: custom groups and channel groups\<close>









lemma channel_groups_loop_distinct:
  "distinct (map fst g) \<Longrightarrow> distinct (map fst (channel_groups_loop i us g))"
  by (induction us arbitrary: i g) (simp_all add: setitem_def distinct_update)






lemma nas_prepare_search_groups:
  "nas_search_groups (NasMutator_prepare_from_supernet fw supernet st) =
     Some (dict_update
             (channel_groups_loop 0
                (filter (\<lambda>u. is_mutable (nas_store (NasMutator_prepare_from_supernet fw supernet st) u))
                   (nas_units (NasMutator_prepare_from_supernet fw supernet st))) [])
             (build_search_groups fw supernet (nas_custom_groups st)))"
proof -
  have "dict_update [] (channel_groups_loop 0 us []) = channel_groups_loop 0 us []" for us
    using dict_update_fresh [of "[]" "channel_groups_loop 0 us []"]
      channel_groups_loop_distinct [of "[]" 0 us] by simp
  then show ?thesis
    by (simp add: NasMutator_prepare_from_supernet_def
        NasMutator_prepare_from_predefined_model_def Let_def split: prod.splits)
qed

text \<open>
  C8. On a freshly constructed mutator the property \<open>search_groups\<close> raises RuntimeError;
  once \<open>prepare_from_supernet\<close> has run, on any mutator, it does not raise and returns
  the dict that \<open>prepare_from_supernet\<close> built: the channel groups of the mutable units,
  updated with the groups of \<open>build_search_groups\<close>.
\<close>

theorem search_groups_before_and_after_prepare:
  "search_groups (NasMutator_init custom_groups base) =
     Inl (RuntimeError ''Call `prepare_from_supernet` first to get the search space.'')
   \<and> search_groups (NasMutator_prepare_from_supernet fw supernet st) =
       Inr (dict_update
              (channel_groups_loop 0
                 (filter (\<lambda>u. is_mutable (nas_store (NasMutator_prepare_from_supernet fw supernet st) u))
                    (nas_units (NasMutator_prepare_from_supernet fw supernet st))) [])
              (build_search_groups fw supernet (nas_custom_groups st)))"
  by (simp add: search_groups_def NasMutator_init_def nas_prepare_search_groups)




end
